theory Spec2Isabelle
  imports Main
begin

section \<open>Strings\<close>

text \<open>
  A Python \<open>str\<close> is a sequence of Unicode code points, and \<open>len\<close>, slicing and the
  regular expressions of the source all count code points. A string is therefore a list of
  code points; \<open>py\<close> embeds an ASCII literal.
\<close>

type_synonym pystr = "nat list"

definition py :: "string \<Rightarrow> pystr" where
  "py s = map of_char s"

text \<open>\<open>str.isspace\<close> of one character, which is also the class \<open>\s\<close> of \<open>re\<close> on a \<open>str\<close>
  pattern and the set that \<open>str.strip()\<close> removes.\<close>

definition py_isspace :: "nat \<Rightarrow> bool" where
  "py_isspace c \<longleftrightarrow>
     (9 \<le> c \<and> c \<le> 13) \<or> (28 \<le> c \<and> c \<le> 32) \<or> c = 133 \<or> c = 160 \<or> c = 5760
     \<or> (8192 \<le> c \<and> c \<le> 8202) \<or> c = 8232 \<or> c = 8233 \<or> c = 8239 \<or> c = 8287 \<or> c = 12288"

text \<open>The class \<open>\d\<close> of \<open>re\<close> on a \<open>str\<close> pattern: Unicode category Nd (table of Unicode 15:
  blocks of ten digits, and the mathematical digits \<open>1D7CE..1D7FF\<close>).\<close>

definition nd_block_starts :: "nat list" where
  "nd_block_starts =
     [0x0030, 0x0660, 0x06F0, 0x07C0, 0x0966, 0x09E6, 0x0A66, 0x0AE6, 0x0B66, 0x0BE6, 0x0C66,
      0x0CE6, 0x0D66, 0x0DE6, 0x0E50, 0x0ED0, 0x0F20, 0x1040, 0x1090, 0x17E0, 0x1810, 0x1946,
      0x19D0, 0x1A80, 0x1A90, 0x1B50, 0x1BB0, 0x1C40, 0x1C50, 0xA620, 0xA8D0, 0xA900, 0xA9D0,
      0xA9F0, 0xAA50, 0xABF0, 0xFF10, 0x104A0, 0x10D30, 0x11066, 0x110F0, 0x11136, 0x111D0,
      0x112F0, 0x11450, 0x114D0, 0x11650, 0x116C0, 0x11730, 0x118E0, 0x11950, 0x11C50, 0x11D50,
      0x11DA0, 0x11F50, 0x16A60, 0x16AC0, 0x16B50, 0x1E140, 0x1E2F0, 0x1E4F0, 0x1E950, 0x1FBF0]"

definition re_digit :: "nat \<Rightarrow> bool" where
  "re_digit c \<longleftrightarrow>
     list_ex (\<lambda>b. b \<le> c \<and> c < b + 10) nd_block_starts \<or> (0x1D7CE \<le> c \<and> c \<le> 0x1D7FF)"

text \<open>\<open>s.strip()\<close> with no argument.\<close>

definition py_strip :: "pystr \<Rightarrow> pystr" where
  "py_strip s = rev (dropWhile py_isspace (rev (dropWhile py_isspace s)))"

text \<open>\<open>s.replace(old, new)\<close> for a one-character \<open>old\<close>, the only form the source uses.\<close>

definition py_replace :: "nat \<Rightarrow> pystr \<Rightarrow> pystr \<Rightarrow> pystr" where
  "py_replace old new s = concat (map (\<lambda>c. if c = old then new else [c]) s)"

text \<open>\<open>s.startswith(p)\<close>, \<open>sub in s\<close> and \<open>s.find(sep)\<close>.\<close>

fun startswith :: "pystr \<Rightarrow> pystr \<Rightarrow> bool" where
  "startswith s [] \<longleftrightarrow> True"
| "startswith [] (p # ps) \<longleftrightarrow> False"
| "startswith (c # cs) (p # ps) \<longleftrightarrow> c = p \<and> startswith cs ps"

fun py_find :: "pystr \<Rightarrow> pystr \<Rightarrow> nat option" where
  "py_find [] sep = (if sep = [] then Some 0 else None)"
| "py_find (c # cs) sep =
     (if startswith (c # cs) sep then Some 0 else map_option Suc (py_find cs sep))"

definition py_in :: "pystr \<Rightarrow> pystr \<Rightarrow> bool" where
  "py_in sub s \<longleftrightarrow> py_find s sub \<noteq> None"

text \<open>
  \<open>s.split(sep)\<close> for a non-empty separator: the pieces between the occurrences of \<open>sep\<close>,
  found from left to right. The source only splits on the fixed markers \<open>/game/\<close> and
  \<open>/comment/\<close>; on an empty separator Python raises, which no call of the source can reach,
  and the model returns the string unsplit.
\<close>

lemma py_find_Nil_Some: "py_find [] sep = Some i \<Longrightarrow> sep = []"
  by (simp split: if_splits)

function py_split :: "pystr \<Rightarrow> pystr \<Rightarrow> pystr list" where
  "py_split s sep =
     (if sep = [] then [s]
      else case py_find s sep of
             None \<Rightarrow> [s]
           | Some i \<Rightarrow> take i s # py_split (drop (i + length sep) s) sep)"
  by pat_completeness auto
termination
proof (relation "measure (\<lambda>(s, sep). length s)")
  show "wf (measure (\<lambda>(s, sep). length s))" by simp
next
  fix s sep :: pystr and i
  assume "sep \<noteq> []" and "py_find s sep = Some i"
  then have "s \<noteq> []" by (auto dest: py_find_Nil_Some)
  with \<open>sep \<noteq> []\<close> show "((drop (i + length sep) s, sep), (s, sep)) \<in> measure (\<lambda>(s, sep). length s)"
    by simp
qed

declare py_split.simps [simp del]

section \<open>Link recognition (utils.py)\<close>

text \<open>
  The two patterns of the source are a sequence of literal characters and of greedy
  character-class repetitions \<open>[...]+\<close>, the second one closed by \<open>$\<close>. \<open>sre_match\<close> is the
  backtracking matcher of \<open>re\<close> on such a sequence, at the start of its input: a repetition
  first takes the longest run and gives characters back one at a time; the result is the
  input left after the match. All matching is under \<open>re.IGNORECASE\<close>.
\<close>

datatype rx_item = LitI nat | PlusClass "nat \<Rightarrow> bool" | EndAnchor

text \<open>A literal pattern character \<open>p\<close> (lower case or uncased) against \<open>c\<close> under
  \<open>re.IGNORECASE\<close>: \<open>c\<close> lower-cases to \<open>p\<close>, or is one of the extra equivalents that \<open>re\<close>
  adds for \<open>s\<close>, \<open>k\<close> and \<open>i\<close>.\<close>

definition lit_ignorecase :: "nat \<Rightarrow> nat \<Rightarrow> bool" where
  "lit_ignorecase p c \<longleftrightarrow>
     c = p \<or> (97 \<le> p \<and> p \<le> 122 \<and> c + 32 = p) \<or> (p = 115 \<and> c = 383) \<or> (p = 107 \<and> c = 8490)
       \<or> (p = 105 \<and> (c = 304 \<or> c = 305))"

fun first_some :: "('a \<Rightarrow> 'b option) \<Rightarrow> 'a list \<Rightarrow> 'b option" where
  "first_some f [] = None"
| "first_some f (x # xs) = (case f x of Some y \<Rightarrow> Some y | None \<Rightarrow> first_some f xs)"

text \<open>\<open>$\<close> without \<open>re.MULTILINE\<close> holds at the end of the input and just before a newline
  that ends it.\<close>

primrec sre_match :: "rx_item list \<Rightarrow> pystr \<Rightarrow> pystr option" where
  "sre_match [] s = Some s"
| "sre_match (i # is) s =
     (case i of
        LitI p \<Rightarrow> (case s of [] \<Rightarrow> None
                   | c # cs \<Rightarrow> if lit_ignorecase p c then sre_match is cs else None)
      | PlusClass P \<Rightarrow>
          first_some (\<lambda>n. sre_match is (drop n s)) (rev [1..<Suc (length (takeWhile P s))])
      | EndAnchor \<Rightarrow> if s = [] \<or> s = [10] then sre_match is s else None)"

text \<open>
  \<open>re.findall\<close> for a pattern without groups: the matched substrings, scanning from left to
  right and resuming after each match. (A pattern that matches the empty string yields the
  empty match and moves on by one character; the pattern of the source never does.)
\<close>

function findall :: "rx_item list \<Rightarrow> pystr \<Rightarrow> pystr list" where
  "findall pat s =
     (case sre_match pat s of
        Some rest \<Rightarrow>
          if length rest < length s then take (length s - length rest) s # findall pat rest
          else [] # (case s of [] \<Rightarrow> [] | c # cs \<Rightarrow> findall pat cs)
      | None \<Rightarrow> (case s of [] \<Rightarrow> [] | c # cs \<Rightarrow> findall pat cs))"
  by pat_completeness auto
termination
  by (relation "measure (\<lambda>(pat, s). length s)") auto

declare findall.simps [simp del]

text \<open>The classes \<open>[^/]\<close> and \<open>[a-f0-9\-]\<close>, the latter under \<open>re.IGNORECASE\<close>.\<close>

definition not_slash :: "nat \<Rightarrow> bool" where
  "not_slash c \<longleftrightarrow> c \<noteq> 47"

definition hex_dash_ignorecase :: "nat \<Rightarrow> bool" where
  "hex_dash_ignorecase c \<longleftrightarrow>
     (97 \<le> c \<and> c \<le> 102) \<or> (65 \<le> c \<and> c \<le> 70) \<or> (48 \<le> c \<and> c \<le> 57) \<or> c = 45"

text \<open>\<open>https://wtg\.com\.ua/game/[^/]+/comment/[a-f0-9\-]+\<close>\<close>

definition wtg_pattern :: "rx_item list" where
  "wtg_pattern =
     map LitI (py ''https://wtg.com.ua/game/'') @ [PlusClass not_slash]
     @ map LitI (py ''/comment/'') @ [PlusClass hex_dash_ignorecase]"

definition extract_wtg_links :: "pystr \<Rightarrow> pystr list" where
  "extract_wtg_links text = findall wtg_pattern text"

text \<open>\<open>re.match\<close> tries the start of the string only, where the leading \<open>^\<close> of the
  validation pattern holds.\<close>

definition validate_wtg_url :: "pystr \<Rightarrow> bool" where
  "validate_wtg_url url \<longleftrightarrow> sre_match (wtg_pattern @ [EndAnchor]) url \<noteq> None"

text \<open>The strings matched by a pattern without \<open>$\<close>, stated without the matcher.\<close>

fun accepts :: "rx_item list \<Rightarrow> pystr \<Rightarrow> bool" where
  "accepts [] p \<longleftrightarrow> p = []"
| "accepts (LitI c # is) p \<longleftrightarrow>
     (case p of [] \<Rightarrow> False | x # xs \<Rightarrow> lit_ignorecase c x \<and> accepts is xs)"
| "accepts (PlusClass P # is) p \<longleftrightarrow>
     (\<exists>n\<in>{1..length p}. (\<forall>x\<in>set (take n p). P x) \<and> accepts is (drop n p))"
| "accepts (EndAnchor # is) p \<longleftrightarrow> False"

section \<open>Sanitizers (utils.py)\<close>

text \<open>\<open>re.sub(r'\s+', ' ', s)\<close>: every maximal run of whitespace becomes one space.\<close>

function re_sub_ws :: "pystr \<Rightarrow> pystr" where
  "re_sub_ws [] = []"
| "re_sub_ws (c # cs) =
     (if py_isspace c then 32 # re_sub_ws (dropWhile py_isspace cs) else c # re_sub_ws cs)"
  by pat_completeness auto
termination
  by (relation "measure length") (auto simp: length_dropWhile_le less_Suc_eq_le)

definition special_chars :: "pystr" where
  "special_chars = [92] @ py ''_*[]()~'' @ [96] @ py ''>#+-=|{}.!''"

definition sanitize_text :: "pystr \<Rightarrow> pystr" where
  "sanitize_text text =
     (if text = [] then []
      else let text = re_sub_ws (py_strip text);
               text = py_replace 92 [92, 92] text
           in fold (\<lambda>char text. py_replace char [92, char] text) (tl special_chars) text)"

definition sanitize_html :: "pystr \<Rightarrow> pystr" where
  "sanitize_html text =
     (if text = [] then []
      else let text = re_sub_ws (py_strip text);
               text = py_replace 38 (py ''&amp;'') text;
               text = py_replace 60 (py ''&lt;'') text;
               text = py_replace 62 (py ''&gt;'') text
           in text)"

text \<open>Reading a string from left to right, \<open>b\<close> telling whether the character before was a
  space: no space follows a space.\<close>

fun spaced_ok :: "bool \<Rightarrow> pystr \<Rightarrow> bool" where
  "spaced_ok b [] \<longleftrightarrow> True"
| "spaced_ok b (c # cs) \<longleftrightarrow> \<not> (b \<and> c = 32) \<and> spaced_ok (c = 32) cs"

section \<open>Objects, exceptions and records (models.py)\<close>

text \<open>
  The values that \<open>response.json()\<close> can return, which are also the values a field of a
  dataclass can hold at run time (the annotations of \<open>models.py\<close> are not enforced). A
  dictionary is an association list read with \<open>map_of\<close>; a float \<open>PFloat m e\<close> stands for
  \<open>m * 2 ^ e\<close>, of which the source only tests whether it is zero.
\<close>

datatype pyobj =
    PNone
  | PBool bool
  | PInt int
  | PFloat int int
  | PStr pystr
  | PList "pyobj list"
  | PDict "(pystr \<times> pyobj) list"

text \<open>Truth value of an object, as tested by \<open>if x\<close>, \<open>not x\<close> and \<open>x or y\<close>.\<close>

fun truthy :: "pyobj \<Rightarrow> bool" where
  "truthy PNone \<longleftrightarrow> False"
| "truthy (PBool b) \<longleftrightarrow> b"
| "truthy (PInt i) \<longleftrightarrow> i \<noteq> 0"
| "truthy (PFloat m e) \<longleftrightarrow> m \<noteq> 0"
| "truthy (PStr s) \<longleftrightarrow> s \<noteq> []"
| "truthy (PList xs) \<longleftrightarrow> xs \<noteq> []"
| "truthy (PDict kvs) \<longleftrightarrow> kvs \<noteq> []"

text \<open>\<open>x or y\<close>\<close>

definition py_or :: "pyobj \<Rightarrow> pyobj \<Rightarrow> pyobj" where
  "py_or x y = (if truthy x then x else y)"

text \<open>Exceptions (subclasses of \<open>Exception\<close>): those of \<open>requests\<close>, which the source catches
  apart, and the others.\<close>

datatype exn = RequestException | AttributeError | TypeError | ValueError | KeyError | OtherException

record GameInfo =
  title :: pystr
  score :: pystr
  image_url :: pystr

record CommentInfo =
  author :: pyobj
  date :: pystr
  text' :: pystr
  comment_id :: pystr

record WTGData =
  game :: GameInfo
  comment :: CommentInfo
  original_url :: pystr

section \<open>Message formatting (utils.py)\<close>

text \<open>
  The sanitizers on an arbitrary object, as the formatters call them on \<open>comment.author\<close>: a
  false object gives the empty string at \<open>if not text\<close>, and \<open>text.strip()\<close> raises on a true
  object that is not a string.
\<close>

definition sanitize_text_obj :: "pyobj \<Rightarrow> exn + pystr" where
  "sanitize_text_obj v =
     (if \<not> truthy v then Inr []
      else case v of PStr s \<Rightarrow> Inr (sanitize_text s) | _ \<Rightarrow> Inl AttributeError)"

definition sanitize_html_obj :: "pyobj \<Rightarrow> exn + pystr" where
  "sanitize_html_obj v =
     (if \<not> truthy v then Inr []
      else case v of PStr s \<Rightarrow> Inr (sanitize_html s) | _ \<Rightarrow> Inl AttributeError)"

text \<open>The non-ASCII characters that open the five lines of both templates, as the source
  file has them.\<close>

definition glyph_game :: pystr where "glyph_game = [287, 376, 174]"
definition glyph_score :: pystr where "glyph_score = [226, 173]"
definition glyph_user :: pystr where "glyph_user = [287, 376, 8216, 164]"
definition glyph_text :: pystr where "glyph_text = [287, 376, 8217, 172]"
definition glyph_link :: pystr where "glyph_link = [287, 376, 8221, 8212]"

text \<open>Of the five fields only \<open>author\<close> can hold a non-string, so only its sanitizing can
  raise.\<close>

definition format_game_message :: "WTGData \<Rightarrow> exn + pystr" where
  "format_game_message wtg_data =
     (let title' = sanitize_text (title (game wtg_data));
          score' = sanitize_text (score (game wtg_data))
      in case sanitize_text_obj (author (comment wtg_data)) of
           Inl e \<Rightarrow> Inl e
         | Inr author' \<Rightarrow>
            let date' = sanitize_text (date (comment wtg_data));
                comment_text = sanitize_text (text' (comment wtg_data));
                comment_text = (if length comment_text > 300
                                then take 297 comment_text @ [92, 46, 92, 46, 92, 46]
                                else comment_text)
            in Inr (glyph_game @ py '' *'' @ title' @ py ''*'' @ [10]
                 @ glyph_score @ py '' Score: '' @ score' @ py ''/100'' @ [10]
                 @ glyph_user @ py '' Comment by: '' @ author' @ [32, 92, 45, 32] @ date' @ [10]
                 @ [10]
                 @ glyph_text @ [32] @ comment_text @ [10]
                 @ [10]
                 @ glyph_link @ py '' [View original post]('' @ original_url wtg_data @ py '')''))"

definition format_game_message_html :: "WTGData \<Rightarrow> exn + pystr" where
  "format_game_message_html wtg_data =
     (let title' = sanitize_html (title (game wtg_data));
          score' = sanitize_html (score (game wtg_data))
      in case sanitize_html_obj (author (comment wtg_data)) of
           Inl e \<Rightarrow> Inl e
         | Inr author' \<Rightarrow>
            let date' = sanitize_html (date (comment wtg_data));
                comment_text = sanitize_html (text' (comment wtg_data));
                comment_text = (if length comment_text > 1000
                                then take 297 comment_text @ py ''...''
                                else comment_text)
            in Inr (glyph_game @ py '' <b>'' @ title' @ py ''</b>'' @ [10]
                 @ glyph_score @ py '' Score: '' @ score' @ py ''/100'' @ [10]
                 @ glyph_user @ py '' Comment by: '' @ author' @ py '' - '' @ date' @ [10]
                 @ [10]
                 @ glyph_text @ [32] @ comment_text @ [10]
                 @ [10]
                 @ glyph_link @ py '' <a href='' @ [34] @ original_url wtg_data @ [34]
                 @ py ''>View original post</a>''))"

section \<open>The environment: documents, HTTP and library functions\<close>

text \<open>
  What the scraper can observe of a \<open>bs4\<close> element (the document itself is one): its text
  \<open>get_text(strip=True)\<close>, its attributes read by \<open>get\<close>, the tokens of its \<open>class\<close> attribute,
  the first descendant matching a CSS selector (\<open>select_one\<close>), and the descendants with one of
  the given tag names in document order (\<open>find_all\<close>). A library call may raise.
\<close>

datatype tag =
  Tag (get_text: pystr)
      (attrs: "(pystr \<times> pystr) list")
      (class_tokens: "pystr list option")
      (select_one: "pystr \<Rightarrow> exn + tag option")
      (find_all: "pystr list \<Rightarrow> exn + tag list")

text \<open>\<open>elem.get(name)\<close>\<close>

definition tag_get :: "tag \<Rightarrow> pystr \<Rightarrow> pystr option" where
  "tag_get t name = map_of (attrs t) name"

text \<open>
  The two kinds of HTTP request of the scraper and what they return: for the page, the parsed
  document after \<open>session.get\<close>, \<open>raise_for_status\<close> and \<open>BeautifulSoup\<close>; for the comment API
  (called with \<open>sharing_id\<close> and \<open>game_slug\<close>), the decoded JSON after \<open>session.get\<close>,
  \<open>raise_for_status\<close> and \<open>response.json()\<close>.
\<close>

datatype request = GetPage pystr | GetApi pystr pystr

record world =
  http_get_page :: "pystr \<Rightarrow> exn + tag"
  http_get_api :: "pystr \<Rightarrow> pystr \<Rightarrow> exn + pyobj"

text \<open>A date as \<open>datetime.fromisoformat\<close> returns it; the time of day and the offset play no
  part in \<open>strftime('%d.%m.%Y')\<close>.\<close>

record datetime =
  year :: nat
  month :: nat
  day :: nat

text \<open>
  The functions of the Python library whose result the model leaves to the library:
  \<open>str(x)\<close> of an object that is not a string, \<open>datetime.fromisoformat\<close>, \<open>str.title\<close>,
  \<open>str.lower\<close> and \<open>urllib.parse.urljoin\<close>.
\<close>

record pylib =
  str_of :: "pyobj \<Rightarrow> pystr"
  fromisoformat :: "pystr \<Rightarrow> exn + datetime"
  str_title :: "pystr \<Rightarrow> pystr"
  str_lower :: "pystr \<Rightarrow> pystr"
  urljoin :: "pystr \<Rightarrow> pystr \<Rightarrow> exn + pystr"

text \<open>\<open>str(x)\<close>\<close>

definition py_str :: "pylib \<Rightarrow> pyobj \<Rightarrow> pystr" where
  "py_str L v = (case v of PStr s \<Rightarrow> s | _ \<Rightarrow> str_of L v)"

text \<open>
  \<open>dt.strftime('%d.%m.%Y')\<close>, as the C library of Linux renders it under CPython: day and month
  on two digits, and the year in decimal without padding (four digits from the year 1000 on,
  fewer below).
\<close>

definition digit :: "nat \<Rightarrow> nat" where
  "digit n = 48 + n mod 10"

function nat_str :: "nat \<Rightarrow> pystr" where
  "nat_str n = (if n < 10 then [digit n] else nat_str (n div 10) @ [digit n])"
  by pat_completeness auto
termination
  by (relation "measure id") auto

declare nat_str.simps [simp del]

definition strftime_dmY :: "datetime \<Rightarrow> pystr" where
  "strftime_dmY dt =
     [digit (day dt div 10), digit (day dt), 46,
      digit (month dt div 10), digit (month dt), 46] @ nat_str (year dt)"

section \<open>Comment API client (scraper.py)\<close>

text \<open>\<open>d.get(key)\<close> on a dictionary, and \<open>key in x\<close> and \<open>x[key]\<close> for a string key on any
  object.\<close>

definition dict_get :: "(pystr \<times> pyobj) list \<Rightarrow> pystr \<Rightarrow> pyobj" where
  "dict_get kvs key = (case map_of kvs key of Some v \<Rightarrow> v | None \<Rightarrow> PNone)"

definition py_contains :: "pystr \<Rightarrow> pyobj \<Rightarrow> exn + bool" where
  "py_contains key x =
     (case x of
        PDict kvs \<Rightarrow> Inr (map_of kvs key \<noteq> None)
      | PList xs \<Rightarrow> Inr (PStr key \<in> set xs)
      | PStr s \<Rightarrow> Inr (py_in key s)
      | _ \<Rightarrow> Inl TypeError)"

definition py_getitem :: "pyobj \<Rightarrow> pystr \<Rightarrow> exn + pyobj" where
  "py_getitem x key =
     (case x of
        PDict kvs \<Rightarrow> (case map_of kvs key of Some v \<Rightarrow> Inr v | None \<Rightarrow> Inl KeyError)
      | _ \<Rightarrow> Inl TypeError)"

text \<open>The date formatting of lines 506 to 516, with its own \<open>try\<close>: a failure of the parser
  keeps the date as it was.\<close>

definition format_date :: "pylib \<Rightarrow> pyobj \<Rightarrow> pyobj" where
  "format_date L date_created =
     (if truthy date_created \<and> date_created \<noteq> PStr (py ''Unknown Date'') then
        if 84 \<in> set (py_str L date_created) then
          (case fromisoformat L (py_replace 90 (py ''+00:00'') (py_str L date_created)) of
             Inr dt \<Rightarrow> PStr (strftime_dmY dt)
           | Inl e \<Rightarrow> date_created)
        else date_created
      else date_created)"

text \<open>Lines 495 to 525: the comment built from the selected review record. \<open>review_data.get\<close>
  raises on a record that is not a dictionary.\<close>

definition review_comment :: "pylib \<Rightarrow> pystr \<Rightarrow> pyobj \<Rightarrow> exn + CommentInfo" where
  "review_comment L comment_id' review_data =
     (case review_data of
        PDict kvs \<Rightarrow>
          let author' = (case map_of kvs (py ''user'') of Some v \<Rightarrow> v | None \<Rightarrow> PDict []);
              review_text = py_or (dict_get kvs (py ''text'')) (PStr (py ''Review text not available''));
              date_created = py_or (py_or (dict_get kvs (py ''created_at''))
                                          (dict_get kvs (py ''updated_at'')))
                                   (PStr (py ''Unknown Date''));
              date_created = format_date L date_created
          in Inr \<lparr>author = author', date = py_str L date_created,
                  text' = py_str L review_text, comment_id = comment_id'\<rparr>
      | _ \<Rightarrow> Inl AttributeError)"

text \<open>Lines 480 to 529: from the decoded response to the comment, \<open>None\<close> for no data.\<close>

definition parse_api_data :: "pylib \<Rightarrow> pystr \<Rightarrow> pyobj \<Rightarrow> exn + CommentInfo option" where
  "parse_api_data L comment_id' api_data =
     (case py_contains (py ''user_reviews'') api_data of
        Inl e \<Rightarrow> Inl e
      | Inr False \<Rightarrow> Inr None
      | Inr True \<Rightarrow>
         (case py_getitem api_data (py ''user_reviews'') of
            Inl e \<Rightarrow> Inl e
          | Inr data_content \<Rightarrow>
             if \<not> truthy data_content then Inr None
             else (case data_content of
                     PList (x # xs) \<Rightarrow> map_sum id Some (review_comment L comment_id' x)
                   | PDict kvs \<Rightarrow> map_sum id Some (review_comment L comment_id' (PDict kvs))
                   | _ \<Rightarrow> Inr None)))"

text \<open>The whole function: one request, and both handlers (\<open>requests.RequestException\<close> and
  \<open>Exception\<close>) return \<open>None\<close>. The second component is the list of requests made.\<close>

definition get_comment_from_api ::
    "pylib \<Rightarrow> world \<Rightarrow> pystr \<Rightarrow> pystr \<Rightarrow> CommentInfo option \<times> request list" where
  "get_comment_from_api L W comment_id' game_slug =
     (case (case http_get_api W comment_id' game_slug of
              Inl e \<Rightarrow> Inl e
            | Inr api_data \<Rightarrow> parse_api_data L comment_id' api_data) of
        Inl e \<Rightarrow> (None, [GetApi comment_id' game_slug])
      | Inr r \<Rightarrow> (r, [GetApi comment_id' game_slug]))"

section \<open>HTML field extraction (scraper.py)\<close>

definition dq :: pystr where
  "dq = [34]"

text \<open>The loop \<open>for selector in selectors: elem = x.select_one(selector); if elem: ...; break\<close>
  as far as the element it stops at. An element of \<open>bs4\<close> is always true.\<close>

fun first_match :: "(pystr \<Rightarrow> exn + tag option) \<Rightarrow> pystr list \<Rightarrow> exn + tag option" where
  "first_match sel [] = Inr None"
| "first_match sel (selector # selectors) =
     (case sel selector of
        Inl e \<Rightarrow> Inl e
      | Inr (Some elem) \<Rightarrow> Inr (Some elem)
      | Inr None \<Rightarrow> first_match sel selectors)"

text \<open>\<open>url.split('/game/')[-1].split('/comment/')[0]\<close> and \<open>url.split('/comment/')[-1]\<close>\<close>

definition url_game_slug :: "pystr \<Rightarrow> pystr" where
  "url_game_slug url = hd (py_split (last (py_split url (py ''/game/''))) (py ''/comment/''))"

definition url_comment_id :: "pystr \<Rightarrow> pystr" where
  "url_comment_id url = last (py_split url (py ''/comment/''))"

subsection \<open>Title\<close>

definition title_selectors :: "pystr list" where
  "title_selectors =
     [py ''h1.game-title'', py ''h1'', py ''.game-header h1'', py ''.title'',
      py ''[data-testid='' @ dq @ py ''game-title'' @ dq @ py '']'']"

definition extract_title :: "pylib \<Rightarrow> tag \<Rightarrow> pystr \<Rightarrow> exn + pystr" where
  "extract_title L soup url =
     (case first_match (select_one soup) title_selectors of
        Inl e \<Rightarrow> Inl e
      | Inr title_elem \<Rightarrow>
          let title' = (case title_elem of Some elem \<Rightarrow> get_text elem | None \<Rightarrow> [])
          in Inr (if title' = [] then str_title L (py_replace 45 [32] (url_game_slug url))
                  else title'))"

subsection \<open>Score\<close>

definition score_selectors :: "pystr list" where
  "score_selectors =
     [py ''.score'', py ''.rating'', py ''.game-score'',
      py ''[class*='' @ dq @ py ''score'' @ dq @ py '']'',
      py ''[class*='' @ dq @ py ''rating'' @ dq @ py '']'']"

text \<open>\<open>re.search(r'\d+', s)\<close> and \<open>group()\<close> of the match: the first maximal run of digits.\<close>

definition re_search_digits :: "pystr \<Rightarrow> pystr option" where
  "re_search_digits s =
     (let r = dropWhile (\<lambda>c. \<not> re_digit c) s
      in if r = [] then None else Some (takeWhile re_digit r))"

text \<open>The score loop (lines 245 to 255); its \<open>break\<close> is under \<open>if score_match\<close>.\<close>

fun score_loop :: "(pystr \<Rightarrow> exn + tag option) \<Rightarrow> pystr list \<Rightarrow> exn + pystr" where
  "score_loop sel [] = Inr (py ''N/A'')"
| "score_loop sel (selector # selectors) =
     (case sel selector of
        Inl e \<Rightarrow> Inl e
      | Inr None \<Rightarrow> score_loop sel selectors
      | Inr (Some score_elem) \<Rightarrow>
          (case re_search_digits (get_text score_elem) of
             Some score_match \<Rightarrow> Inr score_match
           | None \<Rightarrow> score_loop sel selectors))"

definition extract_score :: "tag \<Rightarrow> exn + pystr" where
  "extract_score soup = score_loop (select_one soup) score_selectors"

subsection \<open>Image\<close>

definition image_selectors :: "pystr list" where
  "image_selectors =
     [py ''.game-image img'', py ''.poster img'', py ''.cover img'',
      py ''img[alt*='' @ dq @ py ''game'' @ dq @ py '']'',
      py ''img[src*='' @ dq @ py ''game'' @ dq @ py '']'',
      py ''.game-header img'']"

text \<open>\<open>img.get('src') or img.get('data-src')\<close>, then \<open>if src\<close>: the first of the two attributes
  that is a non-empty string.\<close>

definition img_src :: "tag \<Rightarrow> pystr option" where
  "img_src img =
     (let src = (case tag_get img (py ''src'') of
                   Some s \<Rightarrow> if s \<noteq> [] then Some s else tag_get img (py ''data-src'')
                 | None \<Rightarrow> tag_get img (py ''data-src''))
      in case src of Some s \<Rightarrow> if s \<noteq> [] then Some s else None | None \<Rightarrow> None)"

fun image_loop ::
    "pylib \<Rightarrow> (pystr \<Rightarrow> exn + tag option) \<Rightarrow> pystr \<Rightarrow> pystr list \<Rightarrow> exn + pystr option" where
  "image_loop L sel url [] = Inr None"
| "image_loop L sel url (selector # selectors) =
     (case sel selector of
        Inl e \<Rightarrow> Inl e
      | Inr None \<Rightarrow> image_loop L sel url selectors
      | Inr (Some img_elem) \<Rightarrow>
          (case img_src img_elem of
             Some src \<Rightarrow> map_sum id Some (urljoin L url src)
           | None \<Rightarrow> image_loop L sel url selectors))"

fun any_image_loop :: "pylib \<Rightarrow> pystr \<Rightarrow> tag list \<Rightarrow> exn + pystr option" where
  "any_image_loop L url [] = Inr None"
| "any_image_loop L url (img # imgs) =
     (case img_src img of
        Some src \<Rightarrow>
          if list_ex (\<lambda>keyword. py_in keyword (str_lower L src))
               [py ''game'', py ''cover'', py ''poster'']
          then map_sum id Some (urljoin L url src)
          else any_image_loop L url imgs
      | None \<Rightarrow> any_image_loop L url imgs)"

definition extract_image_url :: "pylib \<Rightarrow> tag \<Rightarrow> pystr \<Rightarrow> exn + pystr" where
  "extract_image_url L soup url =
     (case image_loop L (select_one soup) url image_selectors of
        Inl e \<Rightarrow> Inl e
      | Inr image_url' \<Rightarrow>
          if image_url' = None \<or> image_url' = Some [] then
            (case find_all soup [py ''img''] of
               Inl e \<Rightarrow> Inl e
             | Inr all_images \<Rightarrow>
                 (case any_image_loop L url all_images of
                    Inl e \<Rightarrow> Inl e
                  | Inr None \<Rightarrow> Inr []
                  | Inr (Some u) \<Rightarrow> Inr u))
          else Inr (the image_url'))"

subsection \<open>Game information\<close>

text \<open>The whole of \<open>_extract_game_info\<close>: any exception of its body gives \<open>None\<close>.\<close>

definition extract_game_info :: "pylib \<Rightarrow> tag \<Rightarrow> pystr \<Rightarrow> GameInfo option" where
  "extract_game_info L soup url =
     (case extract_title L soup url of
        Inl e \<Rightarrow> None
      | Inr title' \<Rightarrow>
          (case extract_score soup of
             Inl e \<Rightarrow> None
           | Inr score' \<Rightarrow>
               (case extract_image_url L soup url of
                  Inl e \<Rightarrow> None
                | Inr image_url' \<Rightarrow>
                    Some \<lparr>title = title', score = score', image_url = image_url'\<rparr>)))"

section \<open>HTML comment fallback (scraper.py)\<close>

definition comment_selectors :: "pystr \<Rightarrow> pystr list" where
  "comment_selectors comment_id' =
     [py ''[id='' @ dq @ comment_id' @ dq @ py '']'',
      py ''[data-id='' @ dq @ comment_id' @ dq @ py '']'',
      py ''.comment'', py ''.user-comment'',
      py ''[class*='' @ dq @ py ''comment'' @ dq @ py '']'']"

text \<open>
  The filter \<open>class_=lambda x: x and 'comment' in x.lower()\<close> of \<open>find_all\<close>: \<open>bs4\<close> applies
  the function to every token of the \<open>class\<close> attribute and to the tokens joined by spaces,
  and to \<open>None\<close> when the attribute is absent.
\<close>

definition class_filter :: "pylib \<Rightarrow> pystr \<Rightarrow> bool" where
  "class_filter L x \<longleftrightarrow> x \<noteq> [] \<and> py_in (py ''comment'') (str_lower L x)"

fun join_space :: "pystr list \<Rightarrow> pystr" where
  "join_space [] = []"
| "join_space [x] = x"
| "join_space (x # y # ys) = x @ [32] @ join_space (y # ys)"

definition has_comment_class :: "pylib \<Rightarrow> tag \<Rightarrow> bool" where
  "has_comment_class L elem \<longleftrightarrow>
     (case class_tokens elem of
        None \<Rightarrow> False
      | Some tokens \<Rightarrow> list_ex (class_filter L) tokens \<or> class_filter L (join_space tokens))"

text \<open>The comment container (lines 319 to 329).\<close>

definition find_comment_elem :: "pylib \<Rightarrow> tag \<Rightarrow> pystr \<Rightarrow> exn + tag option" where
  "find_comment_elem L soup comment_id' =
     (case first_match (select_one soup) (comment_selectors comment_id') of
        Inl e \<Rightarrow> Inl e
      | Inr (Some elem) \<Rightarrow> Inr (Some elem)
      | Inr None \<Rightarrow>
          (case find_all soup [py ''div'', py ''article'', py ''section''] of
             Inl e \<Rightarrow> Inl e
           | Inr elems \<Rightarrow>
               (case filter (has_comment_class L) elems of
                  [] \<Rightarrow> Inr None
                | elem # rest \<Rightarrow> Inr (Some elem))))"

definition author_selectors :: "pystr list" where
  "author_selectors =
     [py ''.author'', py ''.username'', py ''.user-name'', py ''.comment-author'',
      py ''[class*='' @ dq @ py ''author'' @ dq @ py '']'',
      py ''[class*='' @ dq @ py ''user'' @ dq @ py '']'']"

definition date_selectors :: "pystr list" where
  "date_selectors =
     [py ''.date'', py ''.timestamp'', py ''.comment-date'', py ''time'', py ''[datetime]'',
      py ''[class*='' @ dq @ py ''date'' @ dq @ py '']'',
      py ''[class*='' @ dq @ py ''time'' @ dq @ py '']'']"

definition text_selectors :: "pystr list" where
  "text_selectors = [py ''.comment-text'', py ''.comment-body'', py ''.text'', py ''.content'', py ''p'']"

definition extract_author :: "tag \<Rightarrow> exn + pystr" where
  "extract_author comment_elem =
     (case first_match (select_one comment_elem) author_selectors of
        Inl e \<Rightarrow> Inl e
      | Inr None \<Rightarrow> Inr (py ''Unknown User'')
      | Inr (Some author_elem) \<Rightarrow> Inr (get_text author_elem))"

definition extract_date :: "tag \<Rightarrow> exn + pystr" where
  "extract_date comment_elem =
     (case first_match (select_one comment_elem) date_selectors of
        Inl e \<Rightarrow> Inl e
      | Inr None \<Rightarrow> Inr (py ''Unknown Date'')
      | Inr (Some date_elem) \<Rightarrow>
          (case tag_get date_elem (py ''datetime'') of
             Some d \<Rightarrow> Inr (if d \<noteq> [] then d else get_text date_elem)
           | None \<Rightarrow> Inr (get_text date_elem)))"

text \<open>The text loop (lines 387 to 393): \<open>comment_text\<close> is assigned at every selector that
  matches, and the loop stops at the first text of more than 10 characters.\<close>

fun text_loop :: "(pystr \<Rightarrow> exn + tag option) \<Rightarrow> pystr \<Rightarrow> pystr list \<Rightarrow> exn + pystr" where
  "text_loop sel comment_text [] = Inr comment_text"
| "text_loop sel comment_text (selector # selectors) =
     (case sel selector of
        Inl e \<Rightarrow> Inl e
      | Inr None \<Rightarrow> text_loop sel comment_text selectors
      | Inr (Some text_elem) \<Rightarrow>
          let comment_text = get_text text_elem
          in if length comment_text > 10 then Inr comment_text
             else text_loop sel comment_text selectors)"

text \<open>Lines 387 to 399.\<close>

definition extract_comment_text :: "tag \<Rightarrow> exn + pystr" where
  "extract_comment_text comment_elem =
     (case text_loop (select_one comment_elem) (py ''Comment text not available'') text_selectors of
        Inl e \<Rightarrow> Inl e
      | Inr comment_text \<Rightarrow>
          if comment_text = py ''Comment text not available'' then
            let all_text = get_text comment_elem
            in Inr (if length all_text > 10 then take 500 all_text else comment_text)
          else Inr comment_text)"

text \<open>The whole of \<open>_extract_comment_info_fallback\<close>: any exception of its body gives
  \<open>None\<close>.\<close>

definition extract_comment_info_fallback :: "pylib \<Rightarrow> tag \<Rightarrow> pystr \<Rightarrow> CommentInfo option" where
  "extract_comment_info_fallback L soup comment_id' =
     (case find_comment_elem L soup comment_id' of
        Inl e \<Rightarrow> None
      | Inr None \<Rightarrow>
          Some \<lparr>author = PStr (py ''Unknown User''), date = py ''Unknown Date'',
                text' = py ''Comment content not available'', comment_id = comment_id'\<rparr>
      | Inr (Some comment_elem) \<Rightarrow>
          (case extract_author comment_elem of
             Inl e \<Rightarrow> None
           | Inr author' \<Rightarrow>
               (case extract_date comment_elem of
                  Inl e \<Rightarrow> None
                | Inr date' \<Rightarrow>
                    (case extract_comment_text comment_elem of
                       Inl e \<Rightarrow> None
                     | Inr comment_text \<Rightarrow>
                         Some \<lparr>author = PStr author', date = date', text' = comment_text,
                               comment_id = comment_id'\<rparr>))))"

section \<open>The orchestrator (scraper.py)\<close>

text \<open>
  The body of the \<open>try\<close> of \<open>scrape_game_page\<close>, with the requests it makes. The random sleep
  changes no result.
\<close>

definition scrape_body ::
    "pylib \<Rightarrow> world \<Rightarrow> pystr \<Rightarrow> (exn + WTGData option) \<times> request list" where
  "scrape_body L W url =
     (let comment_id' = url_comment_id url;
          game_slug = url_game_slug url
      in case http_get_page W url of
           Inl e \<Rightarrow> (Inl e, [GetPage url])
         | Inr soup \<Rightarrow>
             (case extract_game_info L soup url of
                None \<Rightarrow> (Inr None, [GetPage url])
              | Some game_info \<Rightarrow>
                  let (api_comment, api_requests) = get_comment_from_api L W comment_id' game_slug;
                      comment_info =
                        (case api_comment of
                           Some c \<Rightarrow> Some c
                         | None \<Rightarrow> extract_comment_info_fallback L soup comment_id')
                  in case comment_info of
                       None \<Rightarrow> (Inr None, GetPage url # api_requests)
                     | Some c \<Rightarrow>
                         (Inr (Some \<lparr>game = game_info, comment = c, original_url = url\<rparr>),
                          GetPage url # api_requests)))"

text \<open>The two handlers: \<open>except requests.RequestException\<close> and \<open>except Exception\<close> both log
  and return \<open>None\<close>.\<close>

definition scrape_game_page ::
    "pylib \<Rightarrow> world \<Rightarrow> pystr \<Rightarrow> (exn + WTGData option) \<times> request list" where
  "scrape_game_page L W url =
     (case scrape_body L W url of
        (Inl e, requests) \<Rightarrow> (if e = RequestException then Inr None else Inr None, requests)
      | (Inr r, requests) \<Rightarrow> (Inr r, requests))"

section \<open>An instance of the library for examples\<close>

text \<open>
  The theorems hold for every library \<open>L\<close>. Examples need one: \<open>example_lib\<close> follows Python
  on ASCII strings. Its \<open>fromisoformat\<close> accepts the documented format
  \<open>YYYY-MM-DD[*HH[:MM[:SS[.fff[fff]]]][+HH:MM[:SS[.ffffff]]]]\<close>; its \<open>str\<close> renders \<open>None\<close>,
  booleans and integers; its \<open>urljoin\<close> is right on an absolute second argument.
\<close>

definition digits_value :: "pystr \<Rightarrow> nat option" where
  "digits_value s =
     (if s \<noteq> [] \<and> list_all (\<lambda>c. 48 \<le> c \<and> c \<le> 57) s
      then Some (foldl (\<lambda>a c. 10 * a + (c - 48)) 0 s) else None)"

definition below :: "nat option \<Rightarrow> nat \<Rightarrow> bool" where
  "below v n \<longleftrightarrow> (case v of Some x \<Rightarrow> x < n | None \<Rightarrow> False)"

definition hms_ok :: "pystr \<Rightarrow> bool" where
  "hms_ok t \<longleftrightarrow>
     (let n = length t in
        (n = 2 \<or> n = 5 \<or> n = 8 \<or> n = 12 \<or> n = 15)
      \<and> below (digits_value (take 2 t)) 24
      \<and> (5 \<le> n \<longrightarrow> t ! 2 = 58 \<and> below (digits_value (take 2 (drop 3 t))) 60)
      \<and> (8 \<le> n \<longrightarrow> t ! 5 = 58 \<and> below (digits_value (take 2 (drop 6 t))) 60)
      \<and> (12 \<le> n \<longrightarrow> t ! 8 = 46 \<and> digits_value (drop 9 t) \<noteq> None))"

definition time_ok :: "pystr \<Rightarrow> bool" where
  "time_ok t \<longleftrightarrow>
     (let hms = takeWhile (\<lambda>c. c \<noteq> 43 \<and> c \<noteq> 45) t;
          tz = dropWhile (\<lambda>c. c \<noteq> 43 \<and> c \<noteq> 45) t
      in hms_ok hms \<and> (tz = [] \<or> (length (tl tz) \<noteq> 2 \<and> length (tl tz) \<noteq> 12 \<and> hms_ok (tl tz))))"

definition days_in_month :: "nat \<Rightarrow> nat \<Rightarrow> nat" where
  "days_in_month y m =
     (if m = 2 then (if y mod 4 = 0 \<and> (y mod 100 \<noteq> 0 \<or> y mod 400 = 0) then 29 else 28)
      else if m = 4 \<or> m = 6 \<or> m = 9 \<or> m = 11 then 30 else 31)"

definition fromisoformat_documented :: "pystr \<Rightarrow> exn + datetime" where
  "fromisoformat_documented s =
     (case (digits_value (take 4 s), digits_value (take 2 (drop 5 s)),
            digits_value (take 2 (drop 8 s))) of
        (Some y, Some m, Some d) \<Rightarrow>
          if 10 \<le> length s \<and> s ! 4 = 45 \<and> s ! 7 = 45
             \<and> 1 \<le> y \<and> 1 \<le> m \<and> m \<le> 12 \<and> 1 \<le> d \<and> d \<le> days_in_month y m
             \<and> (length s = 10 \<or> time_ok (drop 11 s))
          then Inr \<lparr>year = y, month = m, day = d\<rparr>
          else Inl ValueError
      | _ \<Rightarrow> Inl ValueError)"

definition ascii_lower :: "nat \<Rightarrow> nat" where
  "ascii_lower c = (if 65 \<le> c \<and> c \<le> 90 then c + 32 else c)"

definition ascii_upper :: "nat \<Rightarrow> nat" where
  "ascii_upper c = (if 97 \<le> c \<and> c \<le> 122 then c - 32 else c)"

fun ascii_title :: "bool \<Rightarrow> pystr \<Rightarrow> pystr" where
  "ascii_title prev_cased [] = []"
| "ascii_title prev_cased (c # cs) =
     (if prev_cased then ascii_lower c else ascii_upper c)
       # ascii_title ((65 \<le> c \<and> c \<le> 90) \<or> (97 \<le> c \<and> c \<le> 122)) cs"

definition example_str_of :: "pyobj \<Rightarrow> pystr" where
  "example_str_of v =
     (case v of
        PNone \<Rightarrow> py ''None''
      | PBool b \<Rightarrow> (if b then py ''True'' else py ''False'')
      | PInt i \<Rightarrow> (if i < 0 then 45 # nat_str (nat (- i)) else nat_str (nat i))
      | _ \<Rightarrow> py ''<object>'')"

definition example_lib :: pylib where
  "example_lib =
     \<lparr>str_of = example_str_of,
      fromisoformat = fromisoformat_documented,
      str_title = ascii_title False,
      str_lower = map ascii_lower,
      urljoin = (\<lambda>base u. Inr u)\<rparr>"

text \<open>An element with a text and nothing else, and a world that answers every API request
  with the same JSON value and has no page.\<close>

definition leaf :: "pystr \<Rightarrow> tag" where
  "leaf t = Tag t [] None (\<lambda>selector. Inr None) (\<lambda>names. Inr [])"

definition api_world :: "pyobj \<Rightarrow> world" where
  "api_world j = \<lparr>http_get_page = (\<lambda>url. Inl RequestException), http_get_api = (\<lambda>c g. Inr j)\<rparr>"

text \<open>A world whose every page is the given document and whose API gives the given answer;
  a document that answers the listed selectors with an element of the given text.\<close>

definition page_world :: "tag \<Rightarrow> exn + pyobj \<Rightarrow> world" where
  "page_world doc api = \<lparr>http_get_page = (\<lambda>url. Inr doc), http_get_api = (\<lambda>c g. api)\<rparr>"

definition doc_with :: "pystr \<Rightarrow> (pystr \<times> pystr) list \<Rightarrow> tag" where
  "doc_with t matches =
     Tag t [] None
       (\<lambda>selector. Inr (map_option leaf (map_of matches selector)))
       (\<lambda>names. Inr [])"

section \<open>Extracted links are valid links\<close>

lemma first_some_SomeD:
  "first_some f xs = Some y \<Longrightarrow> \<exists>x\<in>set xs. f x = Some y"
  by (induction xs) (auto split: option.splits)

lemma first_some_not_None:
  "x \<in> set xs \<Longrightarrow> f x \<noteq> None \<Longrightarrow> first_some f xs \<noteq> None"
  by (induction xs) (auto split: option.splits)

lemma take_le_takeWhile:
  assumes "n \<le> length xs" and "\<forall>x\<in>set (take n xs). P x"
  shows "n \<le> length (takeWhile P xs)"
proof -
  have "takeWhile P (take n xs @ drop n xs) = take n xs @ takeWhile P (drop n xs)"
    using assms(2) by (intro takeWhile_append2) simp
  then have "length (takeWhile P xs) = length (take n xs) + length (takeWhile P (drop n xs))"
    by (simp del: length_take)
  then show ?thesis using assms(1) by simp
qed

lemma take_within_takeWhile:
  assumes "n \<le> length (takeWhile P xs)"
  shows "\<forall>x\<in>set (take n xs). P x"
proof -
  have "take n xs = take n (takeWhile P xs)"
    using assms by (metis takeWhile_dropWhile_id take_append diff_is_0_eq take_0 append_Nil2)
  then show ?thesis
    by (metis in_set_takeD set_takeWhileD)
qed

lemma sre_match_sound:
  "EndAnchor \<notin> set is \<Longrightarrow> sre_match is s = Some r \<Longrightarrow> \<exists>p. s = p @ r \<and> accepts is p"
proof (induction "is" arbitrary: s)
  case Nil
  then show ?case by simp
next
  case (Cons i "is")
  show ?case
  proof (cases i)
    case (LitI c)
    with Cons.prems obtain x xs where s: "s = x # xs" and ok: "lit_ignorecase c x"
      and m: "sre_match is xs = Some r"
      by (auto split: list.splits if_splits)
    from Cons.IH [OF _ m] Cons.prems(1) obtain p where "xs = p @ r" "accepts is p" by auto
    with s ok LitI have "s = (x # p) @ r \<and> accepts (i # is) (x # p)" by simp
    then show ?thesis by blast
  next
    case (PlusClass P)
    with Cons.prems(2) have "first_some (\<lambda>n. sre_match is (drop n s))
        (rev [1..<Suc (length (takeWhile P s))]) = Some r"
      by simp
    then obtain n where n: "n \<in> set (rev [1..<Suc (length (takeWhile P s))])"
      and m: "sre_match is (drop n s) = Some r"
      by (blast dest: first_some_SomeD)
    from n have n1: "1 \<le> n" and n2: "n \<le> length (takeWhile P s)" by auto
    from n2 have n3: "n \<le> length s"
      by (meson le_trans length_takeWhile_le)
    from Cons.IH [OF _ m] Cons.prems(1) obtain p where p: "drop n s = p @ r" "accepts is p" by auto
    have allP: "\<forall>x\<in>set (take n s). P x" using n2 by (rule take_within_takeWhile)
    have s: "s = (take n s @ p) @ r" using p(1) by (metis append_take_drop_id append.assoc)
    have "accepts (i # is) (take n s @ p)"
      using PlusClass n1 n3 allP p(2) by (auto intro!: bexI [of _ n])
    with s show ?thesis by blast
  next
    case EndAnchor
    with Cons.prems show ?thesis by simp
  qed
qed

lemma sre_match_complete:
  "accepts is p \<Longrightarrow> sre_match js r \<noteq> None \<Longrightarrow> sre_match (is @ js) (p @ r) \<noteq> None"
proof (induction "is" arbitrary: p)
  case Nil
  then show ?case by simp
next
  case (Cons i "is")
  show ?case
  proof (cases i)
    case (LitI c)
    with Cons show ?thesis by (auto split: list.splits)
  next
    case (PlusClass P)
    with Cons.prems(1) obtain n where n: "1 \<le> n" "n \<le> length p"
      and allP: "\<forall>x\<in>set (take n p). P x" and acc: "accepts is (drop n p)"
      by auto
    have "n \<le> length (takeWhile P (p @ r))"
      using n(2) allP by (intro take_le_takeWhile) auto
    with n(1) have mem: "n \<in> set (rev [1..<Suc (length (takeWhile P (p @ r)))])" by auto
    have "sre_match (is @ js) (drop n (p @ r)) \<noteq> None"
      using Cons.IH [OF acc Cons.prems(2)] n(2) by simp
    with mem have "first_some (\<lambda>n. sre_match (is @ js) (drop n (p @ r)))
        (rev [1..<Suc (length (takeWhile P (p @ r)))]) \<noteq> None"
      by (rule first_some_not_None)
    with PlusClass show ?thesis by simp
  next
    case EndAnchor
    with Cons.prems show ?thesis by simp
  qed
qed

lemma findall_accepts:
  "EndAnchor \<notin> set pat \<Longrightarrow> m \<in> set (findall pat s) \<Longrightarrow> accepts pat m"
proof (induction pat s rule: findall.induct)
  case (1 pat s)
  show ?case
  proof (cases "sre_match pat s")
    case None
    then have eq: "findall pat s = (case s of [] \<Rightarrow> [] | c # cs \<Rightarrow> findall pat cs)"
      by (subst findall.simps) simp
    show ?thesis
    proof (cases s)
      case Nil
      with eq "1.prems"(2) show ?thesis by simp
    next
      case (Cons c cs)
      with eq "1.prems"(2) have "m \<in> set (findall pat cs)" by simp
      with "1.IH"(1) [OF None Cons] "1.prems"(1) show ?thesis by blast
    qed
  next
    case (Some rest)
    from sre_match_sound [OF "1.prems"(1) Some] obtain p where p: "s = p @ rest" "accepts pat p"
      by blast
    then have tk: "take (length s - length rest) s = p" by simp
    show ?thesis
    proof (cases "length rest < length s")
      case True
      then have "findall pat s = p # findall pat rest"
        using Some tk by (subst findall.simps) simp
      with "1.prems"(2) have "m = p \<or> m \<in> set (findall pat rest)" by simp
      with "1.IH"(2) [OF Some True] "1.prems"(1) p(2) show ?thesis by blast
    next
      case False
      with p have pnil: "p = []" by simp
      from False have eq: "findall pat s = [] # (case s of [] \<Rightarrow> [] | c # cs \<Rightarrow> findall pat cs)"
        using Some by (subst findall.simps) simp
      show ?thesis
      proof (cases s)
        case Nil
        with eq "1.prems"(2) p(2) pnil show ?thesis by simp
      next
        case (Cons c cs)
        with eq "1.prems"(2) have "m = [] \<or> m \<in> set (findall pat cs)" by simp
        with "1.IH"(3) [OF Some False Cons] "1.prems"(1) p(2) pnil show ?thesis by blast
      qed
    qed
  qed
qed

lemma wtg_pattern_anchor_free: "EndAnchor \<notin> set wtg_pattern"
  by (auto simp: wtg_pattern_def)


text \<open>
  C1: for every text, every element of the list returned by \<open>extract_wtg_links\<close> satisfies
  \<open>validate_wtg_url\<close>: each extracted link, as a whole string, matches the anchored pattern.
\<close>

theorem C1_extracted_links_valid:
  "\<forall>link\<in>set (extract_wtg_links text). validate_wtg_url link"
proof
  fix link assume "link \<in> set (extract_wtg_links text)"
  then have "accepts wtg_pattern link"
    unfolding extract_wtg_links_def by (rule findall_accepts [OF wtg_pattern_anchor_free])
  then have "sre_match (wtg_pattern @ [EndAnchor]) (link @ []) \<noteq> None"
    by (rule sre_match_complete) simp
  then show "validate_wtg_url link" by (simp add: validate_wtg_url_def)
qed

theorem C1_extracted_links_valid_witness:
  "extract_wtg_links
     (py ''see https://wtg.com.ua/game/x/comment/ab-1 and HTTPS://WTG.com.ua/game/y-z/comment/FF/more'')
     = [py ''https://wtg.com.ua/game/x/comment/ab-1'', py ''HTTPS://WTG.com.ua/game/y-z/comment/FF'']
   \<and> validate_wtg_url (py ''https://wtg.com.ua/game/x/comment/ab-1'')
   \<and> validate_wtg_url (py ''HTTPS://WTG.com.ua/game/y-z/comment/FF'')"
proof -
  let ?t = "py ''see https://wtg.com.ua/game/x/comment/ab-1 and HTTPS://WTG.com.ua/game/y-z/comment/FF/more''"
  have e: "extract_wtg_links ?t
      = [py ''https://wtg.com.ua/game/x/comment/ab-1'', py ''HTTPS://WTG.com.ua/game/y-z/comment/FF'']"
    by (simp add: extract_wtg_links_def wtg_pattern_def py_def findall.simps lit_ignorecase_def
        not_slash_def hex_dash_ignorecase_def)
  from C1_extracted_links_valid [of ?t] show ?thesis
    unfolding e by simp
qed

section \<open>The sanitizers normalise whitespace\<close>

lemma spaced_ok_double: "\<not> spaced_ok b (u @ [32, 32] @ v)"
  by (induction u arbitrary: b) auto

lemma spaced_ok_word:
  "w \<noteq> [] \<Longrightarrow> 32 \<notin> set w \<Longrightarrow> spaced_ok b (w @ y) = spaced_ok False y"
proof (induction w arbitrary: b)
  case Nil
  then show ?case by simp
next
  case (Cons a w)
  then show ?case by (cases w) auto
qed

lemma spaced_ok_replace:
  assumes "old \<noteq> 32" "new \<noteq> []" "32 \<notin> set new"
  shows "spaced_ok b (py_replace old new x) = spaced_ok b x"
proof (induction x arbitrary: b)
  case Nil
  then show ?case by (simp add: py_replace_def)
next
  case (Cons c x)
  have step: "py_replace old new (c # x) = (if c = old then new else [c]) @ py_replace old new x"
    by (simp add: py_replace_def)
  show ?case
  proof (cases "c = old")
    case True
    then have "py_replace old new (c # x) = new @ py_replace old new x"
      by (simp add: py_replace_def)
    then have "spaced_ok b (py_replace old new (c # x)) = spaced_ok False (py_replace old new x)"
      using spaced_ok_word [OF assms(2,3), of b "py_replace old new x"] by simp
    with True assms(1) Cons.IH show ?thesis by simp
  next
    case False
    with Cons.IH show ?thesis by (simp add: step)
  qed
qed

lemma spaced_ok_re_sub_ws:
  "(b \<longrightarrow> t = [] \<or> \<not> py_isspace (hd t)) \<Longrightarrow> spaced_ok b (re_sub_ws t)"
proof (induction t arbitrary: b rule: re_sub_ws.induct)
  case 1
  then show ?case by simp
next
  case (2 c cs)
  show ?case
  proof (cases "py_isspace c")
    case True
    with "2.prems" have nb: "\<not> b" by simp
    have "dropWhile py_isspace cs = [] \<or> \<not> py_isspace (hd (dropWhile py_isspace cs))"
      by (metis hd_dropWhile)
    then have "spaced_ok True (re_sub_ws (dropWhile py_isspace cs))"
      using "2.IH"(1) [OF True] by blast
    with True nb show ?thesis by simp
  next
    case False
    then have "c \<noteq> 32" by (auto simp: py_isspace_def)
    moreover have "spaced_ok False (re_sub_ws cs)" using "2.IH"(2) [OF False] by simp
    ultimately show ?thesis using False by simp
  qed
qed

lemma re_sub_ws_spaces: "c \<in> set (re_sub_ws t) \<Longrightarrow> py_isspace c \<Longrightarrow> c = 32"
proof (induction t rule: re_sub_ws.induct)
  case 1
  then show ?case by simp
next
  case (2 d ds)
  then show ?case by (cases "py_isspace d") auto
qed

lemma filter_dropWhile_neg: "filter (\<lambda>c. \<not> P c) (dropWhile P xs) = filter (\<lambda>c. \<not> P c) xs"
  by (induction xs) auto

lemma re_sub_ws_filter:
  "filter (\<lambda>c. \<not> py_isspace c) (re_sub_ws t) = filter (\<lambda>c. \<not> py_isspace c) t"
proof (induction t rule: re_sub_ws.induct)
  case 1
  then show ?case by simp
next
  case (2 d ds)
  have sp: "py_isspace 32" by (simp add: py_isspace_def)
  show ?case
  proof (cases "py_isspace d")
    case True
    with "2.IH"(1) sp show ?thesis by (simp add: filter_dropWhile_neg)
  next
    case False
    with "2.IH"(2) show ?thesis by simp
  qed
qed

lemma py_strip_filter:
  "filter (\<lambda>c. \<not> py_isspace c) (py_strip s) = filter (\<lambda>c. \<not> py_isspace c) s"
proof -
  have "filter (\<lambda>c. \<not> py_isspace c) (py_strip s)
      = rev (filter (\<lambda>c. \<not> py_isspace c) (dropWhile py_isspace (rev (dropWhile py_isspace s))))"
    by (simp add: py_strip_def rev_filter)
  also have "\<dots> = rev (filter (\<lambda>c. \<not> py_isspace c) (rev (dropWhile py_isspace s)))"
    by (simp only: filter_dropWhile_neg)
  also have "\<dots> = filter (\<lambda>c. \<not> py_isspace c) s"
    by (simp add: rev_filter [symmetric] filter_dropWhile_neg)
  finally show ?thesis .
qed

lemma py_strip_ends:
  "py_strip s = [] \<or> (\<not> py_isspace (hd (py_strip s)) \<and> \<not> py_isspace (last (py_strip s)))"
proof (cases "py_strip s = []")
  case True
  then show ?thesis by simp
next
  case False
  let ?d = "dropWhile py_isspace s"
  let ?e = "dropWhile py_isspace (rev ?d)"
  from False have ne: "?e \<noteq> []" by (simp add: py_strip_def)
  have l: "last (py_strip s) = hd ?e" using ne by (simp add: py_strip_def last_rev)
  have "\<not> py_isspace (hd ?e)" using ne by (simp add: hd_dropWhile)
  with l have last_ok: "\<not> py_isspace (last (py_strip s))" by simp
  have "rev ?d = takeWhile py_isspace (rev ?d) @ ?e" by simp
  then have "?d = rev ?e @ rev (takeWhile py_isspace (rev ?d))"
    by (metis rev_append rev_rev_ident)
  then have "hd ?d = hd (rev ?e)" using ne by (metis hd_append2 rev_is_Nil_conv)
  moreover have "?d \<noteq> []"
  proof
    assume "?d = []"
    then have "?e = []" by (simp only: rev.simps dropWhile.simps)
    with ne show False by simp
  qed
  ultimately have "\<not> py_isspace (hd (rev ?e))"
    by (metis hd_dropWhile)
  then have "\<not> py_isspace (hd (py_strip s))"
    by (simp add: py_strip_def)
  with last_ok show ?thesis by simp
qed

lemma re_sub_ws_hd: "t \<noteq> [] \<Longrightarrow> \<not> py_isspace (hd t) \<Longrightarrow> hd (re_sub_ws t) = hd t \<and> re_sub_ws t \<noteq> []"
  by (cases t) auto

lemma re_sub_ws_last:
  "t \<noteq> [] \<Longrightarrow> \<not> py_isspace (last t) \<Longrightarrow> re_sub_ws t \<noteq> [] \<and> last (re_sub_ws t) = last t"
proof (induction t rule: re_sub_ws.induct)
  case 1
  then show ?case by simp
next
  case (2 c cs)
  show ?case
  proof (cases "py_isspace c")
    case True
    let ?d = "dropWhile py_isspace cs"
    from "2.prems" True have cs: "cs \<noteq> []" by auto
    have "?d \<noteq> []"
    proof
      assume "?d = []"
      then have "\<forall>x\<in>set cs. py_isspace x" by (simp add: dropWhile_eq_Nil_conv)
      with cs "2.prems"(2) show False by simp
    qed
    moreover have "cs = takeWhile py_isspace cs @ ?d" by simp
    ultimately have l: "last cs = last ?d" by (metis last_appendR)
    with "2.prems" cs have "\<not> py_isspace (last ?d)" by simp
    with "2.IH"(1) [OF True \<open>?d \<noteq> []\<close>] have "re_sub_ws ?d \<noteq> [] \<and> last (re_sub_ws ?d) = last ?d"
      by simp
    with True l cs show ?thesis by simp
  next
    case False
    show ?thesis
    proof (cases "cs = []")
      case True
      with False show ?thesis by simp
    next
      case ne: False
      with "2.prems" have "\<not> py_isspace (last cs)" by simp
      with "2.IH"(2) [OF False ne] have "re_sub_ws cs \<noteq> [] \<and> last (re_sub_ws cs) = last cs" by simp
      with False ne show ?thesis by simp
    qed
  qed
qed


lemma py_isspace_range: "py_isspace c \<Longrightarrow> c \<le> 32 \<or> 133 \<le> c"
  by (auto simp: py_isspace_def)

lemma not_space_outside:
  assumes "py_isspace c" and "\<forall>d\<in>A. 33 \<le> d \<and> d \<le> (126::nat)"
  shows "c \<notin> A"
proof
  assume "c \<in> A"
  with assms(2) have "33 \<le> c \<and> c \<le> 126" by blast
  with py_isspace_range [OF assms(1)] show False by arith
qed

lemma set_py_replace: "set (py_replace old new x) \<subseteq> set x \<union> set new"
  by (auto simp: py_replace_def split: if_splits)

lemma fold_escape_set:
  "set (fold (\<lambda>char text. py_replace char [92, char] text) chs x) \<subseteq> set x \<union> insert 92 (set chs)"
proof (induction chs arbitrary: x)
  case Nil
  then show ?case by auto
next
  case (Cons a chs)
  have "set (py_replace a [92, a] x) \<subseteq> set x \<union> {92, a}"
    using set_py_replace [of a "[92, a]" x] by auto
  with Cons.IH [of "py_replace a [92, a] x"] show ?case by auto
qed

lemma fold_escape_spaced:
  "32 \<notin> set chs \<Longrightarrow>
   spaced_ok b (fold (\<lambda>char text. py_replace char [92, char] text) chs x) = spaced_ok b x"
proof (induction chs arbitrary: x)
  case Nil
  then show ?case by simp
next
  case (Cons a chs)
  then have "spaced_ok b (py_replace a [92, a] x) = spaced_ok b x"
    by (intro spaced_ok_replace) auto
  with Cons show ?case by simp
qed

lemma special_chars_set:
  "set (tl special_chars) = {95, 42, 91, 93, 40, 41, 126, 96, 62, 35, 43, 45, 61, 124, 123, 125, 46, 33}"
  by (simp add: special_chars_def py_def)

lemma fold_escape_Nil:
  "fold (\<lambda>char text. py_replace char [92, char] text) chs [] = []"
  by (induction chs) (simp_all add: py_replace_def)

lemma sanitize_text_unfold:
  "sanitize_text s = fold (\<lambda>char text. py_replace char [92, char] text) (tl special_chars)
      (py_replace 92 [92, 92] (re_sub_ws (py_strip s)))"
proof (cases "s = []")
  case True
  have "py_replace 92 [92, 92] (re_sub_ws (py_strip [])) = []"
    by (simp add: py_strip_def py_replace_def)
  with True show ?thesis
    by (simp add: sanitize_text_def fold_escape_Nil)
next
  case False
  then show ?thesis by (simp add: sanitize_text_def Let_def)
qed

lemma sanitize_html_unfold:
  "sanitize_html s = py_replace 62 (py ''&gt;'') (py_replace 60 (py ''&lt;'')
      (py_replace 38 (py ''&amp;'') (re_sub_ws (py_strip s))))"
proof (cases "s = []")
  case True
  then show ?thesis
    by (simp add: sanitize_html_def py_strip_def py_replace_def)
next
  case False
  then show ?thesis by (simp add: sanitize_html_def Let_def)
qed

lemma sanitize_text_spaces:
  assumes "c \<in> set (sanitize_text s)" "py_isspace c"
  shows "c \<in> set (re_sub_ws (py_strip s))"
proof -
  let ?n = "re_sub_ws (py_strip s)"
  from assms(1) have "c \<in> set (py_replace 92 [92, 92] ?n) \<union> insert 92 (set (tl special_chars))"
    using fold_escape_set unfolding sanitize_text_unfold by blast
  then have "c \<in> set ?n \<union> insert 92 (set (tl special_chars))"
    using set_py_replace [of 92 "[92, 92]" ?n] by auto
  moreover have "\<forall>d\<in>insert 92 (set (tl special_chars)). 33 \<le> d \<and> d \<le> 126"
    unfolding special_chars_set by simp
  then have "c \<notin> insert 92 (set (tl special_chars))"
    by (rule not_space_outside [OF assms(2)])
  ultimately show ?thesis by simp
qed

lemma sanitize_html_spaces:
  assumes "c \<in> set (sanitize_html s)" "py_isspace c"
  shows "c \<in> set (re_sub_ws (py_strip s))"
proof -
  let ?n = "re_sub_ws (py_strip s)"
  have "set (sanitize_html s) \<subseteq> set ?n \<union> set (py ''&amp;'') \<union> set (py ''&lt;'') \<union> set (py ''&gt;'')"
    unfolding sanitize_html_unfold
    using set_py_replace [of 38 "py ''&amp;''" ?n]
      set_py_replace [of 60 "py ''&lt;''" "py_replace 38 (py ''&amp;'') ?n"]
      set_py_replace [of 62 "py ''&gt;''" "py_replace 60 (py ''&lt;'') (py_replace 38 (py ''&amp;'') ?n)"]
    by blast
  moreover have "\<forall>d\<in>set (py ''&amp;'') \<union> set (py ''&lt;'') \<union> set (py ''&gt;''). 33 \<le> d \<and> d \<le> 126"
    by (simp add: py_def)
  then have "c \<notin> set (py ''&amp;'') \<union> set (py ''&lt;'') \<union> set (py ''&gt;'')"
    by (rule not_space_outside [OF assms(2)])
  ultimately show ?thesis using assms(1) by blast
qed

lemma sanitize_text_spaced: "spaced_ok False (sanitize_text s)"
proof -
  have "32 \<notin> set (tl special_chars)" unfolding special_chars_set by simp
  then show ?thesis
    unfolding sanitize_text_unfold
    by (simp add: fold_escape_spaced spaced_ok_replace spaced_ok_re_sub_ws)
qed

lemma sanitize_html_spaced: "spaced_ok False (sanitize_html s)"
  unfolding sanitize_html_unfold
  by (simp add: spaced_ok_replace spaced_ok_re_sub_ws py_def)

text \<open>
  C10: \<open>sanitize_text\<close> and \<open>sanitize_html\<close> return the empty string on the empty string; on every
  input they escape the text \<open>n\<close> obtained by stripping leading and trailing whitespace and
  replacing every run of whitespace by one space: \<open>n\<close> has no whitespace but single spaces,
  neither starts nor ends with whitespace, and keeps the other characters in order. Hence the
  output of either function contains no newline, no tab and no two consecutive spaces.
\<close>

theorem C10_sanitizers_normalise_whitespace:
  "sanitize_text [] = [] \<and> sanitize_html [] = []
   \<and> (let n = re_sub_ws (py_strip s) in
        sanitize_text s = fold (\<lambda>char text. py_replace char [92, char] text) (tl special_chars)
                            (py_replace 92 [92, 92] n)
      \<and> sanitize_html s = py_replace 62 (py ''&gt;'') (py_replace 60 (py ''&lt;'')
                            (py_replace 38 (py ''&amp;'') n))
      \<and> (\<forall>c\<in>set n. py_isspace c \<longrightarrow> c = 32)
      \<and> (n \<noteq> [] \<longrightarrow> \<not> py_isspace (hd n) \<and> \<not> py_isspace (last n))
      \<and> \<not> (\<exists>u v. n = u @ [32, 32] @ v)
      \<and> filter (\<lambda>c. \<not> py_isspace c) n = filter (\<lambda>c. \<not> py_isspace c) s)
   \<and> 10 \<notin> set (sanitize_text s) \<and> 9 \<notin> set (sanitize_text s)
   \<and> \<not> (\<exists>u v. sanitize_text s = u @ [32, 32] @ v)
   \<and> 10 \<notin> set (sanitize_html s) \<and> 9 \<notin> set (sanitize_html s)
   \<and> \<not> (\<exists>u v. sanitize_html s = u @ [32, 32] @ v)"
proof -
  let ?n = "re_sub_ws (py_strip s)"
  have e: "sanitize_text [] = [] \<and> sanitize_html [] = []"
    by (simp add: sanitize_text_def sanitize_html_def)
  have sp: "\<forall>c\<in>set ?n. py_isspace c \<longrightarrow> c = 32"
    using re_sub_ws_spaces by blast
  have ends: "?n \<noteq> [] \<longrightarrow> \<not> py_isspace (hd ?n) \<and> \<not> py_isspace (last ?n)"
  proof
    assume ne: "?n \<noteq> []"
    then have ne': "py_strip s \<noteq> []" by auto
    with py_strip_ends [of s]
    have "\<not> py_isspace (hd (py_strip s))" "\<not> py_isspace (last (py_strip s))" by auto
    with ne' re_sub_ws_hd [of "py_strip s"] re_sub_ws_last [of "py_strip s"]
    show "\<not> py_isspace (hd ?n) \<and> \<not> py_isspace (last ?n)" by simp
  qed
  have dbl: "\<not> (\<exists>u v. ?n = u @ [32, 32] @ v)"
    using spaced_ok_re_sub_ws [of False "py_strip s"] spaced_ok_double [of False] by auto
  have flt: "filter (\<lambda>c. \<not> py_isspace c) ?n = filter (\<lambda>c. \<not> py_isspace c) s"
    by (simp only: re_sub_ws_filter py_strip_filter)
  have ws: "py_isspace 10" "py_isspace 9" by (simp_all add: py_isspace_def)
  have nws: "\<not> (py_isspace c \<and> c \<noteq> 32 \<and> c \<in> set ?n)" for c
    using re_sub_ws_spaces [of c "py_strip s"] by blast
  have t1: "10 \<notin> set (sanitize_text s)"
    using sanitize_text_spaces [of 10 s] nws [of 10] ws by auto
  have t2: "9 \<notin> set (sanitize_text s)"
    using sanitize_text_spaces [of 9 s] nws [of 9] ws by auto
  have t3: "\<not> (\<exists>u v. sanitize_text s = u @ [32, 32] @ v)"
    using sanitize_text_spaced [of s] spaced_ok_double [of False] by metis
  have h1: "10 \<notin> set (sanitize_html s)"
    using sanitize_html_spaces [of 10 s] nws [of 10] ws by auto
  have h2: "9 \<notin> set (sanitize_html s)"
    using sanitize_html_spaces [of 9 s] nws [of 9] ws by auto
  have h3: "\<not> (\<exists>u v. sanitize_html s = u @ [32, 32] @ v)"
    using sanitize_html_spaced [of s] spaced_ok_double [of False] by metis
  have eqs: "sanitize_text s = fold (\<lambda>char text. py_replace char [92, char] text)
        (tl special_chars) (py_replace 92 [92, 92] ?n)"
    "sanitize_html s = py_replace 62 (py ''&gt;'') (py_replace 60 (py ''&lt;'')
        (py_replace 38 (py ''&amp;'') ?n))"
    by (rule sanitize_text_unfold, rule sanitize_html_unfold)
  from eqs sp ends dbl flt
  have mid: "let n = ?n in
        sanitize_text s = fold (\<lambda>char text. py_replace char [92, char] text) (tl special_chars)
                            (py_replace 92 [92, 92] n)
      \<and> sanitize_html s = py_replace 62 (py ''&gt;'') (py_replace 60 (py ''&lt;'')
                            (py_replace 38 (py ''&amp;'') n))
      \<and> (\<forall>c\<in>set n. py_isspace c \<longrightarrow> c = 32)
      \<and> (n \<noteq> [] \<longrightarrow> \<not> py_isspace (hd n) \<and> \<not> py_isspace (last n))
      \<and> \<not> (\<exists>u v. n = u @ [32, 32] @ v)
      \<and> filter (\<lambda>c. \<not> py_isspace c) n = filter (\<lambda>c. \<not> py_isspace c) s"
    unfolding Let_def by (intro conjI)
  from e have e1: "sanitize_text [] = []" and e2: "sanitize_html [] = []" by simp_all
  from e1 e2 mid t1 t2 t3 h1 h2 h3 show ?thesis by (intro conjI)
qed

theorem C10_sanitizers_normalise_whitespace_witness:
  "sanitize_text [32, 9, 97, 10, 32, 32, 98, 46, 32] = py ''a b'' @ [92, 46]
   \<and> sanitize_html [32, 9, 97, 10, 32, 32, 98, 46, 32] = py ''a b.''
   \<and> 10 \<notin> set (sanitize_text [32, 9, 97, 10, 32, 32, 98, 46, 32])
   \<and> 9 \<notin> set (sanitize_html [32, 9, 97, 10, 32, 32, 98, 46, 32])
   \<and> re_sub_ws (py_strip [32, 9, 97, 10, 32, 32, 98, 46, 32]) \<noteq> []
   \<and> \<not> py_isspace (hd (re_sub_ws (py_strip [32, 9, 97, 10, 32, 32, 98, 46, 32])))"
proof -
  let ?s = "[32, 9, 97, 10, 32, 32, 98, 46, 32] :: pystr"
  have n: "re_sub_ws (py_strip ?s) = py ''a b.''"
    by (simp add: py_strip_def py_isspace_def py_def)
  have n': "re_sub_ws (py_strip ?s) \<noteq> []" unfolding n by (simp add: py_def)
  have t: "sanitize_text ?s = py ''a b'' @ [92, 46]"
    by (simp add: sanitize_text_def special_chars_def py_strip_def py_isspace_def py_def
        py_replace_def)
  have h: "sanitize_html ?s = py ''a b.''"
    by (simp add: sanitize_html_def py_strip_def py_isspace_def py_def py_replace_def)
  from C10_sanitizers_normalise_whitespace [of ?s] n' t h show ?thesis
    unfolding Let_def by blast
qed

section \<open>Truncation of the comment text in the two formatters\<close>

lemma py_strip_plain: "\<forall>c\<in>set s. \<not> py_isspace c \<Longrightarrow> py_strip s = s"
proof -
  assume a: "\<forall>c\<in>set s. \<not> py_isspace c"
  then have "dropWhile py_isspace s = s" by (cases s) auto
  moreover from a have "dropWhile py_isspace (rev s) = rev s" by (cases "rev s") auto
  ultimately show ?thesis by (simp add: py_strip_def)
qed

lemma re_sub_ws_plain: "\<forall>c\<in>set s. \<not> py_isspace c \<Longrightarrow> re_sub_ws s = s"
  by (induction s) auto

lemma py_replace_absent: "old \<notin> set s \<Longrightarrow> py_replace old new s = s"
  by (induction s) (auto simp: py_replace_def)

lemma fold_escape_absent:
  "set chs \<inter> set s = {} \<Longrightarrow> fold (\<lambda>char text. py_replace char [92, char] text) chs s = s"
  by (induction chs) (auto simp: py_replace_absent)

lemma sanitize_text_letters: "sanitize_text (replicate n 97) = replicate n 97"
proof -
  let ?r = "replicate n 97 :: pystr"
  have p: "\<forall>c\<in>set ?r. \<not> py_isspace c" by (auto simp: py_isspace_def)
  have s1: "py_strip ?r = ?r" by (rule py_strip_plain [OF p])
  have s2: "re_sub_ws ?r = ?r" by (rule re_sub_ws_plain [OF p])
  have s3: "py_replace 92 [92, 92] ?r = ?r" by (rule py_replace_absent) simp
  have "set (tl special_chars) \<inter> set ?r = {}"
    by (auto simp: special_chars_def py_def)
  then have s4: "fold (\<lambda>char text. py_replace char [92, char] text) (tl special_chars) ?r = ?r"
    by (rule fold_escape_absent)
  show ?thesis
  proof (cases "?r = []")
    case True
    then show ?thesis by (simp add: sanitize_text_def)
  next
    case False
    then show ?thesis unfolding sanitize_text_def Let_def s1 s2 s3 s4 by simp
  qed
qed

lemma sanitize_html_letters: "sanitize_html (replicate n 97) = replicate n 97"
proof -
  let ?r = "replicate n 97 :: pystr"
  have p: "\<forall>c\<in>set ?r. \<not> py_isspace c" by (auto simp: py_isspace_def)
  have s1: "py_strip ?r = ?r" by (rule py_strip_plain [OF p])
  have s2: "re_sub_ws ?r = ?r" by (rule re_sub_ws_plain [OF p])
  have s3: "py_replace 38 (py ''&amp;'') ?r = ?r" by (rule py_replace_absent) simp
  have s4: "py_replace 60 (py ''&lt;'') ?r = ?r" by (rule py_replace_absent) simp
  have s5: "py_replace 62 (py ''&gt;'') ?r = ?r" by (rule py_replace_absent) simp
  show ?thesis
  proof (cases "?r = []")
    case True
    then show ?thesis by (simp add: sanitize_html_def)
  next
    case False
    then show ?thesis unfolding sanitize_html_def Let_def s1 s2 s3 s4 s5 by simp
  qed
qed

text \<open>
  C8: in \<open>format_game_message\<close> a sanitized comment text of more than 300 characters is
  replaced by its first 297 characters and the escaped ellipsis \<open>\.\.\.\<close>; in
  \<open>format_game_message_html\<close> the test is against 1000 characters, and the replacement is
  still the first 297 characters and \<open>...\<close>; at or below the threshold the sanitized text is
  interpolated unchanged. (A formatter returns a message when \<open>author\<close> is a string or a false
  object, the hypothesis of each half.)
\<close>

theorem C8_comment_truncation:
  "(sanitize_text_obj (author (comment d)) = Inr a \<longrightarrow>
      format_game_message d =
        Inr (glyph_game @ py '' *'' @ sanitize_text (title (game d)) @ py ''*'' @ [10]
           @ glyph_score @ py '' Score: '' @ sanitize_text (score (game d)) @ py ''/100'' @ [10]
           @ glyph_user @ py '' Comment by: '' @ a @ [32, 92, 45, 32]
           @ sanitize_text (date (comment d)) @ [10, 10]
           @ glyph_text @ [32]
           @ (if 300 < length (sanitize_text (text' (comment d)))
              then take 297 (sanitize_text (text' (comment d))) @ [92, 46, 92, 46, 92, 46]
              else sanitize_text (text' (comment d)))
           @ [10, 10]
           @ glyph_link @ py '' [View original post]('' @ original_url d @ py '')''))
   \<and> (sanitize_html_obj (author (comment d)) = Inr b \<longrightarrow>
      format_game_message_html d =
        Inr (glyph_game @ py '' <b>'' @ sanitize_html (title (game d)) @ py ''</b>'' @ [10]
           @ glyph_score @ py '' Score: '' @ sanitize_html (score (game d)) @ py ''/100'' @ [10]
           @ glyph_user @ py '' Comment by: '' @ b @ py '' - ''
           @ sanitize_html (date (comment d)) @ [10, 10]
           @ glyph_text @ [32]
           @ (if 1000 < length (sanitize_html (text' (comment d)))
              then take 297 (sanitize_html (text' (comment d))) @ py ''...''
              else sanitize_html (text' (comment d)))
           @ [10, 10]
           @ glyph_link @ py '' <a href='' @ [34] @ original_url d @ [34]
           @ py ''>View original post</a>''))"
  by (simp add: format_game_message_def format_game_message_html_def Let_def)

theorem C8_comment_truncation_witness:
  "format_game_message
     \<lparr>game = \<lparr>title = py ''Doom'', score = py ''87'', image_url = []\<rparr>,
      comment = \<lparr>author = PStr (py ''bob''), date = py ''Unknown Date'',
                 text' = replicate 301 97, comment_id = py ''ab-1''\<rparr>,
      original_url = py ''https://wtg.com.ua/game/doom/comment/ab-1''\<rparr>
   = Inr (glyph_game @ py '' *Doom*'' @ [10]
        @ glyph_score @ py '' Score: 87/100'' @ [10]
        @ glyph_user @ py '' Comment by: bob '' @ [92] @ py ''- Unknown Date'' @ [10, 10]
        @ glyph_text @ [32] @ replicate 297 97 @ [92, 46, 92, 46, 92, 46] @ [10, 10]
        @ glyph_link @ py '' [View original post](https://wtg.com.ua/game/doom/comment/ab-1)'')
   \<and> format_game_message_html
     \<lparr>game = \<lparr>title = py ''Doom'', score = py ''87'', image_url = []\<rparr>,
      comment = \<lparr>author = PStr (py ''bob''), date = py ''Unknown Date'',
                 text' = replicate 301 97, comment_id = py ''ab-1''\<rparr>,
      original_url = py ''https://wtg.com.ua/game/doom/comment/ab-1''\<rparr>
   = Inr (glyph_game @ py '' <b>Doom</b>'' @ [10]
        @ glyph_score @ py '' Score: 87/100'' @ [10]
        @ glyph_user @ py '' Comment by: bob - Unknown Date'' @ [10, 10]
        @ glyph_text @ [32] @ replicate 301 97 @ [10, 10]
        @ glyph_link @ py '' <a href='' @ [34] @ py ''https://wtg.com.ua/game/doom/comment/ab-1''
        @ [34] @ py ''>View original post</a>'')"
proof -
  let ?d = "\<lparr>game = \<lparr>title = py ''Doom'', score = py ''87'', image_url = []\<rparr>,
      comment = \<lparr>author = PStr (py ''bob''), date = py ''Unknown Date'',
                 text' = replicate 301 97, comment_id = py ''ab-1''\<rparr>,
      original_url = py ''https://wtg.com.ua/game/doom/comment/ab-1''\<rparr>"
  have t: "sanitize_text (py ''Doom'') = py ''Doom''" "sanitize_text (py ''87'') = py ''87''"
    "sanitize_text (py ''bob'') = py ''bob''"
    "sanitize_text (py ''Unknown Date'') = py ''Unknown Date''"
    by (simp_all add: sanitize_text_def special_chars_def py_strip_def py_isspace_def py_def
        py_replace_def)
  have h: "sanitize_html (py ''Doom'') = py ''Doom''" "sanitize_html (py ''87'') = py ''87''"
    "sanitize_html (py ''bob'') = py ''bob''"
    "sanitize_html (py ''Unknown Date'') = py ''Unknown Date''"
    by (simp_all add: sanitize_html_def py_strip_def py_isspace_def py_def py_replace_def)
  have a: "sanitize_text_obj (author (comment ?d)) = Inr (py ''bob'')"
    using t(3) by (simp add: sanitize_text_obj_def py_def)
  have b: "sanitize_html_obj (author (comment ?d)) = Inr (py ''bob'')"
    using h(3) by (simp add: sanitize_html_obj_def py_def)
  from C8_comment_truncation [of ?d "py ''bob''" "py ''bob''"] a b
  have "format_game_message ?d = Inr (glyph_game @ py '' *'' @ sanitize_text (title (game ?d)) @ py ''*'' @ [10]
           @ glyph_score @ py '' Score: '' @ sanitize_text (score (game ?d)) @ py ''/100'' @ [10]
           @ glyph_user @ py '' Comment by: '' @ py ''bob'' @ [32, 92, 45, 32]
           @ sanitize_text (date (comment ?d)) @ [10, 10]
           @ glyph_text @ [32]
           @ (if 300 < length (sanitize_text (text' (comment ?d)))
              then take 297 (sanitize_text (text' (comment ?d))) @ [92, 46, 92, 46, 92, 46]
              else sanitize_text (text' (comment ?d)))
           @ [10, 10]
           @ glyph_link @ py '' [View original post]('' @ original_url ?d @ py '')'')"
    and "format_game_message_html ?d =
        Inr (glyph_game @ py '' <b>'' @ sanitize_html (title (game ?d)) @ py ''</b>'' @ [10]
           @ glyph_score @ py '' Score: '' @ sanitize_html (score (game ?d)) @ py ''/100'' @ [10]
           @ glyph_user @ py '' Comment by: '' @ py ''bob'' @ py '' - ''
           @ sanitize_html (date (comment ?d)) @ [10, 10]
           @ glyph_text @ [32]
           @ (if 1000 < length (sanitize_html (text' (comment ?d)))
              then take 297 (sanitize_html (text' (comment ?d))) @ py ''...''
              else sanitize_html (text' (comment ?d)))
           @ [10, 10]
           @ glyph_link @ py '' <a href='' @ [34] @ original_url ?d @ [34]
           @ py ''>View original post</a>'')"
    by blast+
  then show ?thesis
    by (simp add: t h sanitize_text_letters sanitize_html_letters) (simp add: py_def)
qed

section \<open>The comment API client\<close>

lemma api_error: "http_get_api W cid slug = Inl e \<Longrightarrow> fst (get_comment_from_api L W cid slug) = None"
  by (simp add: get_comment_from_api_def)

lemma api_parsed:
  "http_get_api W cid slug = Inr j \<Longrightarrow>
   fst (get_comment_from_api L W cid slug)
     = (case parse_api_data L cid j of Inl e \<Rightarrow> None | Inr r \<Rightarrow> r)"
  by (simp add: get_comment_from_api_def split: sum.splits)

lemma parse_not_dict: "\<forall>resp. j \<noteq> PDict resp \<Longrightarrow> (case parse_api_data L cid j of Inl e \<Rightarrow> None | Inr r \<Rightarrow> r) = None"
  by (cases j) (auto simp: parse_api_data_def py_contains_def py_getitem_def split: sum.splits bool.splits)

lemma parse_absent:
  "map_of resp (py ''user_reviews'') = None \<Longrightarrow> parse_api_data L cid (PDict resp) = Inr None"
  by (simp add: parse_api_data_def py_contains_def)

lemma parse_present:
  "map_of resp (py ''user_reviews'') = Some v \<Longrightarrow>
   parse_api_data L cid (PDict resp) =
     (if \<not> truthy v then Inr None
      else case v of
             PList (x # xs) \<Rightarrow> map_sum id Some (review_comment L cid x)
           | PDict kvs \<Rightarrow> map_sum id Some (review_comment L cid (PDict kvs))
           | _ \<Rightarrow> Inr None)"
  by (simp add: parse_api_data_def py_contains_def py_getitem_def)

lemma opt_map_sum:
  "(case map_sum id Some r of Inl e \<Rightarrow> None | Inr x \<Rightarrow> x)
     = (case r of Inl e \<Rightarrow> None | Inr c \<Rightarrow> Some c)"
  by (cases r) simp_all

text \<open>
  C3: \<open>_get_comment_from_api\<close> returns \<open>None\<close>, and no error, when the request fails, when the
  response is not a dictionary, when the key \<open>user_reviews\<close> is absent, and when its value is an
  empty list, an empty dictionary or of another type. On a non-empty list the first element is
  the review record, on a non-empty dictionary the dictionary itself: the result is the comment
  built from that record (\<open>None\<close> if building it raises). The response
  \<open>{"user_reviews": []}\<close> gives \<open>None\<close>.
\<close>

theorem C3_api_no_data_is_None:
  "(http_get_api W cid slug = Inl e \<longrightarrow> fst (get_comment_from_api L W cid slug) = None)
   \<and> (http_get_api W cid slug = Inr j \<and> (\<forall>resp. j \<noteq> PDict resp) \<longrightarrow>
        fst (get_comment_from_api L W cid slug) = None)
   \<and> (http_get_api W cid slug = Inr (PDict resp) \<longrightarrow>
        (map_of resp (py ''user_reviews'') = None \<longrightarrow>
           fst (get_comment_from_api L W cid slug) = None)
      \<and> (map_of resp (py ''user_reviews'') = Some (PList []) \<longrightarrow>
           fst (get_comment_from_api L W cid slug) = None)
      \<and> (map_of resp (py ''user_reviews'') = Some (PDict []) \<longrightarrow>
           fst (get_comment_from_api L W cid slug) = None)
      \<and> (map_of resp (py ''user_reviews'') = Some v
            \<and> (\<forall>xs. v \<noteq> PList xs) \<and> (\<forall>kvs. v \<noteq> PDict kvs) \<longrightarrow>
           fst (get_comment_from_api L W cid slug) = None)
      \<and> (map_of resp (py ''user_reviews'') = Some (PList (r # rs)) \<longrightarrow>
           fst (get_comment_from_api L W cid slug)
             = (case review_comment L cid r of Inl e \<Rightarrow> None | Inr c \<Rightarrow> Some c))
      \<and> (map_of resp (py ''user_reviews'') = Some (PDict (kv # kvs)) \<longrightarrow>
           fst (get_comment_from_api L W cid slug)
             = (case review_comment L cid (PDict (kv # kvs)) of Inl e \<Rightarrow> None | Inr c \<Rightarrow> Some c)))
   \<and> (http_get_api W cid slug = Inr (PDict [(py ''user_reviews'', PList [])]) \<longrightarrow>
        fst (get_comment_from_api L W cid slug) = None)"
proof (intro conjI impI)
  assume "http_get_api W cid slug = Inl e"
  then show "fst (get_comment_from_api L W cid slug) = None" by (rule api_error)
next
  assume "http_get_api W cid slug = Inr j \<and> (\<forall>resp. j \<noteq> PDict resp)"
  then show "fst (get_comment_from_api L W cid slug) = None"
    by (simp add: api_parsed parse_not_dict)
next
  assume "http_get_api W cid slug = Inr (PDict resp)" "map_of resp (py ''user_reviews'') = None"
  then show "fst (get_comment_from_api L W cid slug) = None"
    by (simp add: api_parsed parse_absent)
next
  assume "http_get_api W cid slug = Inr (PDict resp)" "map_of resp (py ''user_reviews'') = Some (PList [])"
  then show "fst (get_comment_from_api L W cid slug) = None"
    by (simp add: api_parsed parse_present)
next
  assume "http_get_api W cid slug = Inr (PDict resp)" "map_of resp (py ''user_reviews'') = Some (PDict [])"
  then show "fst (get_comment_from_api L W cid slug) = None"
    by (simp add: api_parsed parse_present)
next
  assume a: "http_get_api W cid slug = Inr (PDict resp)"
    and b: "map_of resp (py ''user_reviews'') = Some v \<and> (\<forall>xs. v \<noteq> PList xs) \<and> (\<forall>kvs. v \<noteq> PDict kvs)"
  then have "parse_api_data L cid (PDict resp) = Inr None"
    by (cases v) (simp_all add: parse_present)
  with a show "fst (get_comment_from_api L W cid slug) = None"
    by (simp add: api_parsed)
next
  assume "http_get_api W cid slug = Inr (PDict resp)"
    "map_of resp (py ''user_reviews'') = Some (PList (r # rs))"
  then show "fst (get_comment_from_api L W cid slug)
      = (case review_comment L cid r of Inl e \<Rightarrow> None | Inr c \<Rightarrow> Some c)"
    by (simp add: api_parsed parse_present opt_map_sum)
next
  assume "http_get_api W cid slug = Inr (PDict resp)"
    "map_of resp (py ''user_reviews'') = Some (PDict (kv # kvs))"
  then show "fst (get_comment_from_api L W cid slug)
      = (case review_comment L cid (PDict (kv # kvs)) of Inl e \<Rightarrow> None | Inr c \<Rightarrow> Some c)"
    by (simp add: api_parsed parse_present opt_map_sum)
next
  assume "http_get_api W cid slug = Inr (PDict [(py ''user_reviews'', PList [])])"
  then show "fst (get_comment_from_api L W cid slug) = None"
    by (simp add: api_parsed parse_present)
qed


lemma example_world_api [simp]: "http_get_api (api_world j) c g = Inr j"
  by (simp add: api_world_def)

lemma py_eq_iff: "py a = py b \<longleftrightarrow> a = b"
  by (simp add: py_def inj_map_eq_map inj_on_def)

theorem C3_api_no_data_is_None_witness:
  "fst (get_comment_from_api example_lib (api_world (PDict [(py ''user_reviews'', PList [])]))
         (py ''ab-1'') (py ''doom'')) = None
   \<and> fst (get_comment_from_api example_lib (api_world (PDict [(py ''error'', PStr (py ''no''))]))
         (py ''ab-1'') (py ''doom'')) = None
   \<and> fst (get_comment_from_api example_lib (api_world (PDict [(py ''user_reviews'', PInt 7)]))
         (py ''ab-1'') (py ''doom'')) = None
   \<and> fst (get_comment_from_api example_lib (api_world (PList [PStr (py ''user_reviews'')]))
         (py ''ab-1'') (py ''doom'')) = None
   \<and> fst (get_comment_from_api example_lib
         (api_world (PDict [(py ''user_reviews'',
            PList [PDict [(py ''text'', PStr (py ''Great game''))], PInt 1])]))
         (py ''ab-1'') (py ''doom''))
       = fst (get_comment_from_api example_lib
         (api_world (PDict [(py ''user_reviews'', PDict [(py ''text'', PStr (py ''Great game''))])]))
         (py ''ab-1'') (py ''doom''))"
proof -
  let ?K = "py ''user_reviews''"
  let ?r = "PDict [(py ''text'', PStr (py ''Great game''))]"
  have k: "py ''error'' \<noteq> ?K" by (simp add: py_eq_iff)
  note T = C3_api_no_data_is_None [where L = example_lib and cid = "py ''ab-1''" and slug = "py ''doom''"]
  have 1: "fst (get_comment_from_api example_lib (api_world (PDict [(?K, PList [])]))
         (py ''ab-1'') (py ''doom'')) = None"
    using T [of "api_world (PDict [(?K, PList [])])"] by simp
  have 2: "fst (get_comment_from_api example_lib (api_world (PDict [(py ''error'', PStr (py ''no''))]))
         (py ''ab-1'') (py ''doom'')) = None"
    using T [of "api_world (PDict [(py ''error'', PStr (py ''no''))])" _ _ "[(py ''error'', PStr (py ''no''))]"] k
    by simp
  have 3: "fst (get_comment_from_api example_lib (api_world (PDict [(?K, PInt 7)]))
         (py ''ab-1'') (py ''doom'')) = None"
    using T [of "api_world (PDict [(?K, PInt 7)])" _ _ "[(?K, PInt 7)]" "PInt 7"] by simp
  have 4: "fst (get_comment_from_api example_lib (api_world (PList [PStr ?K]))
         (py ''ab-1'') (py ''doom'')) = None"
    using T [of "api_world (PList [PStr ?K])" _ "PList [PStr ?K]"] by simp
  have 5: "fst (get_comment_from_api example_lib (api_world (PDict [(?K, PList [?r, PInt 1])]))
         (py ''ab-1'') (py ''doom''))
      = (case review_comment example_lib (py ''ab-1'') ?r of Inl e \<Rightarrow> None | Inr c \<Rightarrow> Some c)"
    using T [of "api_world (PDict [(?K, PList [?r, PInt 1])])" _ _ "[(?K, PList [?r, PInt 1])]" _ ?r "[PInt 1]"]
    by simp
  have 6: "fst (get_comment_from_api example_lib (api_world (PDict [(?K, ?r)]))
         (py ''ab-1'') (py ''doom''))
      = (case review_comment example_lib (py ''ab-1'') ?r of Inl e \<Rightarrow> None | Inr c \<Rightarrow> Some c)"
    using T [of "api_world (PDict [(?K, ?r)])" _ _ "[(?K, ?r)]" _ _ _ "(py ''text'', PStr (py ''Great game''))" "[]"]
    by simp
  from 1 2 3 4 5 6 show ?thesis by simp
qed


lemma review_comment_dict:
  "review_comment L cid (PDict rd) =
     Inr \<lparr>author = (case map_of rd (py ''user'') of Some v \<Rightarrow> v | None \<Rightarrow> PDict []),
          date = py_str L (format_date L
                   (py_or (py_or (dict_get rd (py ''created_at'')) (dict_get rd (py ''updated_at'')))
                          (PStr (py ''Unknown Date'')))),
          text' = py_str L (py_or (dict_get rd (py ''text'')) (PStr (py ''Review text not available''))),
          comment_id = cid\<rparr>"
  by (simp add: review_comment_def Let_def)

lemma api_review:
  assumes "http_get_api W cid slug = Inr (PDict resp)"
    and "map_of resp (py ''user_reviews'') = Some (PDict (kv # kvs)) \<and> rd = kv # kvs
         \<or> map_of resp (py ''user_reviews'') = Some (PList (PDict rd # rs))"
  shows "fst (get_comment_from_api L W cid slug)
     = (case review_comment L cid (PDict rd) of Inl e \<Rightarrow> None | Inr c \<Rightarrow> Some c)"
  using assms by (auto simp: api_parsed parse_present opt_map_sum)









lemma example_fromisoformat [simp]: "fromisoformat example_lib = fromisoformat_documented"
  by (simp add: example_lib_def)



text \<open>
  C5, as amended: for the selected review record \<open>rd\<close> the comment has: as author the value of
  the key \<open>user\<close>, of any shape, when the key is present, and the empty dictionary when it is
  absent; as text the value of \<open>text\<close>, or \<open>Review text not available\<close> when that is absent or
  false (empty); as date the value of \<open>created_at\<close>, else of \<open>updated_at\<close>, else \<open>Unknown Date\<close>,
  then formatted as in C4; values that are not strings go through \<open>str\<close>.
\<close>

theorem C5_api_comment_fields:
  "http_get_api W cid slug = Inr (PDict resp)
     \<and> (map_of resp (py ''user_reviews'') = Some (PDict (kv # kvs)) \<and> rd = kv # kvs
        \<or> map_of resp (py ''user_reviews'') = Some (PList (PDict rd # rs))) \<longrightarrow>
   (\<exists>c. fst (get_comment_from_api L W cid slug) = Some c
      \<and> (\<forall>v. map_of rd (py ''user'') = Some v \<longrightarrow> author c = v)
      \<and> (map_of rd (py ''user'') = None \<longrightarrow> author c = PDict [])
      \<and> text' c = py_str L (if truthy (dict_get rd (py ''text'')) then dict_get rd (py ''text'')
                             else PStr (py ''Review text not available''))
      \<and> (\<forall>t. map_of rd (py ''text'') = Some (PStr t) \<and> t \<noteq> [] \<longrightarrow> text' c = t)
      \<and> (map_of rd (py ''text'') = None \<or> map_of rd (py ''text'') = Some (PStr [])
           \<longrightarrow> text' c = py ''Review text not available'')
      \<and> date c = py_str L (format_date L
           (if truthy (dict_get rd (py ''created_at'')) then dict_get rd (py ''created_at'')
            else if truthy (dict_get rd (py ''updated_at'')) then dict_get rd (py ''updated_at'')
            else PStr (py ''Unknown Date'')))
      \<and> comment_id c = cid)"
proof
  assume a: "http_get_api W cid slug = Inr (PDict resp)
     \<and> (map_of resp (py ''user_reviews'') = Some (PDict (kv # kvs)) \<and> rd = kv # kvs
        \<or> map_of resp (py ''user_reviews'') = Some (PList (PDict rd # rs)))"
  let ?c = "\<lparr>author = (case map_of rd (py ''user'') of Some v \<Rightarrow> v | None \<Rightarrow> PDict []),
          date = py_str L (format_date L
                   (py_or (py_or (dict_get rd (py ''created_at'')) (dict_get rd (py ''updated_at'')))
                          (PStr (py ''Unknown Date'')))),
          text' = py_str L (py_or (dict_get rd (py ''text'')) (PStr (py ''Review text not available''))),
          comment_id = cid\<rparr>"
  from a have "fst (get_comment_from_api L W cid slug)
     = (case review_comment L cid (PDict rd) of Inl e \<Rightarrow> None | Inr c \<Rightarrow> Some c)"
    by (intro api_review) blast+
  then have g: "fst (get_comment_from_api L W cid slug) = Some ?c"
    by (simp add: review_comment_dict)
  have 1: "\<forall>v. map_of rd (py ''user'') = Some v \<longrightarrow> author ?c = v" by simp
  have 2: "map_of rd (py ''user'') = None \<longrightarrow> author ?c = PDict []" by simp
  have 3: "text' ?c = py_str L (if truthy (dict_get rd (py ''text'')) then dict_get rd (py ''text'')
                             else PStr (py ''Review text not available''))"
    by (simp add: py_or_def)
  have 4: "\<forall>t. map_of rd (py ''text'') = Some (PStr t) \<and> t \<noteq> [] \<longrightarrow> text' ?c = t"
    by (simp add: py_or_def dict_get_def py_str_def)
  have 5: "map_of rd (py ''text'') = None \<or> map_of rd (py ''text'') = Some (PStr [])
           \<longrightarrow> text' ?c = py ''Review text not available''"
    by (auto simp: py_or_def dict_get_def py_str_def)
  have 6: "date ?c = py_str L (format_date L
           (if truthy (dict_get rd (py ''created_at'')) then dict_get rd (py ''created_at'')
            else if truthy (dict_get rd (py ''updated_at'')) then dict_get rd (py ''updated_at'')
            else PStr (py ''Unknown Date'')))"
    by (simp add: py_or_def)
  have 7: "comment_id ?c = cid" by simp
  from g 1 2 3 4 5 6 7 show "\<exists>c. fst (get_comment_from_api L W cid slug) = Some c
      \<and> (\<forall>v. map_of rd (py ''user'') = Some v \<longrightarrow> author c = v)
      \<and> (map_of rd (py ''user'') = None \<longrightarrow> author c = PDict [])
      \<and> text' c = py_str L (if truthy (dict_get rd (py ''text'')) then dict_get rd (py ''text'')
                             else PStr (py ''Review text not available''))
      \<and> (\<forall>t. map_of rd (py ''text'') = Some (PStr t) \<and> t \<noteq> [] \<longrightarrow> text' c = t)
      \<and> (map_of rd (py ''text'') = None \<or> map_of rd (py ''text'') = Some (PStr [])
           \<longrightarrow> text' c = py ''Review text not available'')
      \<and> date c = py_str L (format_date L
           (if truthy (dict_get rd (py ''created_at'')) then dict_get rd (py ''created_at'')
            else if truthy (dict_get rd (py ''updated_at'')) then dict_get rd (py ''updated_at'')
            else PStr (py ''Unknown Date'')))
      \<and> comment_id c = cid"
    by (intro exI [of _ ?c] conjI)
qed

text \<open>
  The claim as stated (the author is the value of \<open>user\<close>, never defaulted) fails on a record
  without the key \<open>user\<close>: the author is then the default \<open>{}\<close> of
  \<open>review_data.get('user', {})\<close>.
\<close>

theorem C5_author_default_counterexample:
  "fst (get_comment_from_api example_lib
          (api_world (PDict [(py ''user_reviews'', PDict [(py ''text'', PStr (py ''Great game''))])]))
          (py ''ab-1'') (py ''doom''))
     = Some \<lparr>author = PDict [], date = py ''Unknown Date'', text' = py ''Great game'',
             comment_id = py ''ab-1''\<rparr>
   \<and> map_of [(py ''text'', PStr (py ''Great game''))] (py ''user'') = None"
proof -
  have k: "py ''user'' \<noteq> py ''text''" "py ''created_at'' \<noteq> py ''text''"
    "py ''updated_at'' \<noteq> py ''text''" "py ''Great game'' \<noteq> []" "py ''Unknown Date'' \<noteq> []"
    by (simp_all add: py_eq_iff) (simp_all add: py_def)
  have "parse_api_data example_lib (py ''ab-1'')
          (PDict [(py ''user_reviews'', PDict [(py ''text'', PStr (py ''Great game''))])])
      = Inr (Some \<lparr>author = PDict [], date = py ''Unknown Date'', text' = py ''Great game'',
             comment_id = py ''ab-1''\<rparr>)"
    using k by (simp add: parse_present review_comment_dict dict_get_def py_or_def format_date_def
        py_str_def)
  then show ?thesis using k(1) by (simp add: api_parsed)
qed

theorem C5_api_comment_fields_witness:
  "\<exists>c. fst (get_comment_from_api example_lib
          (api_world (PDict [(py ''user_reviews'',
             PDict [(py ''user'', PDict [(py ''name'', PStr (py ''bob''))]),
                    (py ''text'', PStr (py ''Great game''))])]))
          (py ''ab-1'') (py ''doom'')) = Some c
     \<and> author c = PDict [(py ''name'', PStr (py ''bob''))]
     \<and> text' c = py ''Great game''
     \<and> comment_id c = py ''ab-1''"
proof -
  let ?rd = "[(py ''user'', PDict [(py ''name'', PStr (py ''bob''))]),
              (py ''text'', PStr (py ''Great game''))]"
  let ?resp = "[(py ''user_reviews'', PDict ?rd)]"
  have k: "py ''text'' \<noteq> py ''user''" "py ''Great game'' \<noteq> []"
    by (simp_all add: py_eq_iff) (simp_all add: py_def)
  have u: "map_of ?rd (py ''user'') = Some (PDict [(py ''name'', PStr (py ''bob''))])" by simp
  have t: "map_of ?rd (py ''text'') = Some (PStr (py ''Great game''))" using k by simp
  from C5_api_comment_fields [of "api_world (PDict ?resp)" "py ''ab-1''" "py ''doom''" ?resp
      "(py ''user'', PDict [(py ''name'', PStr (py ''bob''))])"
      "[(py ''text'', PStr (py ''Great game''))]" ?rd "[]" example_lib]
  obtain c where c: "fst (get_comment_from_api example_lib (api_world (PDict ?resp))
        (py ''ab-1'') (py ''doom'')) = Some c"
    "\<forall>v. map_of ?rd (py ''user'') = Some v \<longrightarrow> author c = v"
    "\<forall>t. map_of ?rd (py ''text'') = Some (PStr t) \<and> t \<noteq> [] \<longrightarrow> text' c = t"
    "comment_id c = py ''ab-1''"
    by auto
  from c(2) u have "author c = PDict [(py ''name'', PStr (py ''bob''))]" by blast
  moreover from c(3) t k(2) have "text' c = py ''Great game''" by blast
  ultimately show ?thesis using c(1,4) by blast
qed

section \<open>Splitting a URL on its markers\<close>

lemma startswith_iff: "startswith s p \<longleftrightarrow> (\<exists>v. s = p @ v)"
  by (induction s p rule: startswith.induct) auto

lemma py_find_Some:
  "py_find s sep = Some i \<Longrightarrow> i \<le> length s \<and> s = take i s @ sep @ drop (i + length sep) s"
proof (induction s arbitrary: i)
  case Nil
  then show ?case by (simp split: if_splits)
next
  case (Cons c cs)
  show ?case
  proof (cases "startswith (c # cs) sep")
    case True
    with Cons.prems have i: "i = 0" by simp
    from True obtain v where "c # cs = sep @ v" by (auto simp: startswith_iff)
    with i show ?thesis by simp
  next
    case False
    with Cons.prems obtain j where j: "py_find cs sep = Some j" "i = Suc j" by auto
    from Cons.IH [OF j(1)] have "j \<le> length cs" "cs = take j cs @ sep @ drop (j + length sep) cs"
      by simp_all
    with j(2) show ?thesis by simp
  qed
qed

lemma py_find_None: "py_find s sep = None \<Longrightarrow> \<not> (\<exists>u v. s = u @ sep @ v)"
proof (induction s)
  case Nil
  then show ?case by (simp split: if_splits)
next
  case (Cons c cs)
  from Cons.prems have ns: "\<not> startswith (c # cs) sep" and n: "py_find cs sep = None"
    by (auto split: if_splits)
  show ?case
  proof
    assume "\<exists>u v. c # cs = u @ sep @ v"
    then obtain u v where uv: "c # cs = u @ sep @ v" by blast
    show False
    proof (cases u)
      case Nil
      with uv ns show False by (auto simp: startswith_iff)
    next
      case (Cons a u')
      with uv have "cs = u' @ sep @ v" by simp
      with Cons.IH [OF n] show False by blast
    qed
  qed
qed

lemma py_find_None_iff: "py_find s sep = None \<longleftrightarrow> \<not> (\<exists>u v. s = u @ sep @ v)"
proof
  assume "py_find s sep = None"
  then show "\<not> (\<exists>u v. s = u @ sep @ v)" by (rule py_find_None)
next
  assume a: "\<not> (\<exists>u v. s = u @ sep @ v)"
  show "py_find s sep = None"
  proof (rule ccontr)
    assume "py_find s sep \<noteq> None"
    then obtain i where "py_find s sep = Some i" by auto
    from py_find_Some [OF this] a show False by blast
  qed
qed

lemma py_split_no_sep: "py_find s sep = None \<Longrightarrow> py_split s sep = [s]"
  by (subst py_split.simps) simp

lemma py_split_not_Nil: "py_split s sep \<noteq> []"
  by (subst py_split.simps) (simp split: option.splits)

lemma last_py_split:
  "sep \<noteq> [] \<Longrightarrow>
   py_find (last (py_split s sep)) sep = None
   \<and> (py_find s sep = None \<longrightarrow> last (py_split s sep) = s)
   \<and> (py_find s sep \<noteq> None \<longrightarrow> (\<exists>pre. s = pre @ sep @ last (py_split s sep)))"
proof (induction s sep rule: py_split.induct)
  case (1 s sep)
  show ?case
  proof (cases "py_find s sep")
    case None
    then show ?thesis by (simp add: py_split_no_sep)
  next
    case (Some i)
    let ?rest = "drop (i + length sep) s"
    have sp: "py_split s sep = take i s # py_split ?rest sep"
      using Some "1.prems" by (subst py_split.simps) simp
    then have l: "last (py_split s sep) = last (py_split ?rest sep)"
      by (simp add: py_split_not_Nil)
    from "1.IH" [OF "1.prems" Some "1.prems"]
    have ih: "py_find (last (py_split ?rest sep)) sep = None"
      "py_find ?rest sep = None \<longrightarrow> last (py_split ?rest sep) = ?rest"
      "py_find ?rest sep \<noteq> None \<longrightarrow> (\<exists>pre. ?rest = pre @ sep @ last (py_split ?rest sep))"
      by simp_all
    from py_find_Some [OF Some] have s: "s = take i s @ sep @ ?rest" by simp
    have "\<exists>pre. s = pre @ sep @ last (py_split ?rest sep)"
    proof (cases "py_find ?rest sep")
      case None
      with ih(2) s show ?thesis by metis
    next
      case (Some j)
      with ih(3) obtain pre where "?rest = pre @ sep @ last (py_split ?rest sep)" by auto
      with s have "s = (take i s @ sep @ pre) @ sep @ last (py_split ?rest sep)" by simp
      then show ?thesis by blast
    qed
    with ih(1) l Some show ?thesis by simp
  qed
qed

lemma marker_nonempty: "py ''/comment/'' \<noteq> []"
  by (simp add: py_def)

lemma url_comment_id_spec:
  "\<not> (\<exists>u v. url_comment_id url = u @ py ''/comment/'' @ v)
   \<and> ((\<exists>u v. url = u @ py ''/comment/'' @ v) \<longrightarrow> (\<exists>pre. url = pre @ py ''/comment/'' @ url_comment_id url))
   \<and> (\<not> (\<exists>u v. url = u @ py ''/comment/'' @ v) \<longrightarrow> url_comment_id url = url)"
  using last_py_split [OF marker_nonempty, of url]
  unfolding url_comment_id_def py_find_None_iff by blast

section \<open>The orchestrator\<close>

lemma review_comment_id: "review_comment L cid x = Inr c \<Longrightarrow> comment_id c = cid"
  by (cases x) (auto simp: review_comment_def Let_def)

lemma parse_api_comment_id: "parse_api_data L cid j = Inr (Some c) \<Longrightarrow> comment_id c = cid"
  by (auto simp: parse_api_data_def map_sum_def split: sum.splits bool.splits if_splits pyobj.splits list.splits
      dest: review_comment_id)

lemma api_comment_id: "fst (get_comment_from_api L W cid slug) = Some c \<Longrightarrow> comment_id c = cid"
  by (auto simp: get_comment_from_api_def split: sum.splits dest: parse_api_comment_id)

lemma api_requests: "snd (get_comment_from_api L W cid slug) = [GetApi cid slug]"
  by (simp add: get_comment_from_api_def split: sum.splits)

lemma fallback_comment_id: "extract_comment_info_fallback L soup cid = Some c \<Longrightarrow> comment_id c = cid"
  by (auto simp: extract_comment_info_fallback_def split: sum.splits option.splits)

lemma scrape_page_error:
  "http_get_page W url = Inl e \<Longrightarrow> scrape_game_page L W url = (Inr None, [GetPage url])"
  by (simp add: scrape_game_page_def scrape_body_def Let_def)

lemma scrape_never_raises: "\<exists>r. fst (scrape_game_page L W url) = Inr r"
  by (cases "scrape_body L W url") (auto simp: scrape_game_page_def split: sum.splits)

lemma scrape_some:
  assumes "fst (scrape_game_page L W url) = Inr (Some r)"
  shows "\<exists>soup g. http_get_page W url = Inr soup \<and> extract_game_info L soup url = Some g
     \<and> game r = g \<and> original_url r = url
     \<and> (case fst (get_comment_from_api L W (url_comment_id url) (url_game_slug url)) of
          Some c \<Rightarrow> comment r = c
        | None \<Rightarrow> extract_comment_info_fallback L soup (url_comment_id url) = Some (comment r))"
  using assms
  by (auto simp: scrape_game_page_def scrape_body_def Let_def
      split: sum.splits option.splits prod.splits)

lemma ev_cid: "url_comment_id (py ''https://wtg.com.ua/game/doom/comment/ab-1'') = py ''ab-1''"
  by (simp add: url_comment_id_def py_def py_split.simps)

lemma ev_slug: "url_game_slug (py ''https://wtg.com.ua/game/doom/comment/ab-1'') = py ''doom''"
  by (simp add: url_game_slug_def py_def py_split.simps)

lemma ev_cid0: "url_comment_id (py ''https://example.com/'') = py ''https://example.com/''"
  by (simp add: url_comment_id_def py_def py_split.simps)

lemma ev_slug0: "url_game_slug (py ''https://example.com/'') = py ''https://example.com/''"
  by (simp add: url_game_slug_def py_def py_split.simps)

lemma ev_game0:
  "extract_game_info example_lib (leaf []) (py ''https://example.com/'')
     = Some \<lparr>title = py ''Https://Example.Com/'', score = py ''N/A'', image_url = []\<rparr>"
  by (simp add: extract_game_info_def extract_title_def extract_score_def extract_image_url_def
      leaf_def title_selectors_def score_selectors_def image_selectors_def ev_slug0 example_lib_def)
    (simp add: py_def py_replace_def ascii_upper_def ascii_lower_def)

lemma ev_fallback0:
  "extract_comment_info_fallback example_lib (leaf []) cid
     = Some \<lparr>author = PStr (py ''Unknown User''), date = py ''Unknown Date'',
             text' = py ''Comment content not available'', comment_id = cid\<rparr>"
  by (simp add: extract_comment_info_fallback_def find_comment_elem_def leaf_def
      comment_selectors_def)


lemma ev_game1:
  "extract_game_info example_lib (leaf []) (py ''https://wtg.com.ua/game/doom/comment/ab-1'')
     = Some \<lparr>title = py ''Doom'', score = py ''N/A'', image_url = []\<rparr>"
  by (simp add: extract_game_info_def extract_title_def extract_score_def extract_image_url_def
      leaf_def title_selectors_def score_selectors_def image_selectors_def ev_slug example_lib_def)
    (simp add: py_def py_replace_def ascii_upper_def ascii_lower_def)

lemma ev_api1:
  "get_comment_from_api example_lib
     (page_world (leaf []) (Inr (PDict [(py ''user_reviews'',
        PDict [(py ''text'', PStr (py ''Great game''))])])))
     (py ''ab-1'') (py ''doom'')
   = (Some \<lparr>author = PDict [], date = py ''Unknown Date'', text' = py ''Great game'',
            comment_id = py ''ab-1''\<rparr>, [GetApi (py ''ab-1'') (py ''doom'')])"
proof -
  have k: "py ''user'' \<noteq> py ''text''" "py ''created_at'' \<noteq> py ''text''"
    "py ''updated_at'' \<noteq> py ''text''" "py ''Great game'' \<noteq> []" "py ''Unknown Date'' \<noteq> []"
    by (simp_all add: py_eq_iff) (simp_all add: py_def)
  have "parse_api_data example_lib (py ''ab-1'')
          (PDict [(py ''user_reviews'', PDict [(py ''text'', PStr (py ''Great game''))])])
      = Inr (Some \<lparr>author = PDict [], date = py ''Unknown Date'', text' = py ''Great game'',
             comment_id = py ''ab-1''\<rparr>)"
    using k by (simp add: parse_present review_comment_dict dict_get_def py_or_def format_date_def
        py_str_def)
  then show ?thesis by (simp add: get_comment_from_api_def page_world_def)
qed

text \<open>
  C2: \<open>scrape_game_page\<close> never propagates an exception: its result is a \<open>WTGData\<close> record or
  \<open>None\<close>. If the page request raises, the result is \<open>None\<close> and the page request is the only
  request made: none goes to the comment API.
\<close>

theorem C2_scrape_never_raises:
  "(\<exists>r. fst (scrape_game_page L W url) = Inr r)
   \<and> (http_get_page W url = Inl e \<longrightarrow>
        scrape_game_page L W url = (Inr None, [GetPage url])
      \<and> (\<forall>c g. GetApi c g \<notin> set (snd (scrape_game_page L W url))))"
  using scrape_never_raises [of L W url] scrape_page_error [of W url e L] by auto

theorem C2_scrape_never_raises_witness:
  "scrape_game_page example_lib (api_world (PDict [])) (py ''https://wtg.com.ua/game/doom/comment/ab-1'')
     = (Inr None, [GetPage (py ''https://wtg.com.ua/game/doom/comment/ab-1'')])"
  using C2_scrape_never_raises [of example_lib "api_world (PDict [])"
      "py ''https://wtg.com.ua/game/doom/comment/ab-1''" RequestException]
  by (simp add: api_world_def)

text \<open>
  C9, as amended: for every record \<open>r\<close> returned on the input \<open>url\<close>, \<open>original_url\<close> is \<open>url\<close>
  itself and the comment's \<open>comment_id\<close> is \<open>url.split('/comment/')[-1]\<close>: it contains no marker
  \<open>/comment/\<close>; when the URL contains the marker it is the part of the URL after an occurrence
  of the marker, and when the URL does not contain it, it is the whole URL. This holds on the API
  path, where the comment is the one of the API, and on the fallback path, where it is the one
  of the HTML fallback.
\<close>

theorem C9_url_fields:
  "fst (scrape_game_page L W url) = Inr (Some r) \<longrightarrow>
     original_url r = url
   \<and> comment_id (comment r) = url_comment_id url
   \<and> \<not> (\<exists>u v. comment_id (comment r) = u @ py ''/comment/'' @ v)
   \<and> ((\<exists>u v. url = u @ py ''/comment/'' @ v) \<longrightarrow>
        (\<exists>pre. url = pre @ py ''/comment/'' @ comment_id (comment r)))
   \<and> (\<not> (\<exists>u v. url = u @ py ''/comment/'' @ v) \<longrightarrow> comment_id (comment r) = url)
   \<and> (\<forall>c. fst (get_comment_from_api L W (url_comment_id url) (url_game_slug url)) = Some c \<longrightarrow>
        comment r = c)
   \<and> (fst (get_comment_from_api L W (url_comment_id url) (url_game_slug url)) = None \<longrightarrow>
        (\<exists>soup. http_get_page W url = Inr soup
           \<and> extract_comment_info_fallback L soup (url_comment_id url) = Some (comment r)))"
proof
  assume a: "fst (scrape_game_page L W url) = Inr (Some r)"
  from scrape_some [OF a] obtain soup g where s: "http_get_page W url = Inr soup"
    "original_url r = url"
    "case fst (get_comment_from_api L W (url_comment_id url) (url_game_slug url)) of
          Some c \<Rightarrow> comment r = c
        | None \<Rightarrow> extract_comment_info_fallback L soup (url_comment_id url) = Some (comment r)"
    by blast
  have cid: "comment_id (comment r) = url_comment_id url"
  proof (cases "fst (get_comment_from_api L W (url_comment_id url) (url_game_slug url))")
    case None
    with s(3) show ?thesis by (simp add: fallback_comment_id)
  next
    case (Some c)
    with s(3) api_comment_id [OF Some] show ?thesis by simp
  qed
  have p1: "\<forall>c. fst (get_comment_from_api L W (url_comment_id url) (url_game_slug url)) = Some c \<longrightarrow>
        comment r = c"
    using s(3) by (auto split: option.splits)
  have p2: "fst (get_comment_from_api L W (url_comment_id url) (url_game_slug url)) = None \<longrightarrow>
        (\<exists>soup. http_get_page W url = Inr soup
           \<and> extract_comment_info_fallback L soup (url_comment_id url) = Some (comment r))"
    using s(1,3) by (auto split: option.splits)
  from url_comment_id_spec [of url] have
    q1: "\<not> (\<exists>u v. url_comment_id url = u @ py ''/comment/'' @ v)" and
    q2: "(\<exists>u v. url = u @ py ''/comment/'' @ v) \<longrightarrow>
        (\<exists>pre. url = pre @ py ''/comment/'' @ url_comment_id url)" and
    q3: "\<not> (\<exists>u v. url = u @ py ''/comment/'' @ v) \<longrightarrow> url_comment_id url = url"
    by blast+
  from s(2) cid q1 q2 q3 p1 p2 show "original_url r = url
   \<and> comment_id (comment r) = url_comment_id url
   \<and> \<not> (\<exists>u v. comment_id (comment r) = u @ py ''/comment/'' @ v)
   \<and> ((\<exists>u v. url = u @ py ''/comment/'' @ v) \<longrightarrow>
        (\<exists>pre. url = pre @ py ''/comment/'' @ comment_id (comment r)))
   \<and> (\<not> (\<exists>u v. url = u @ py ''/comment/'' @ v) \<longrightarrow> comment_id (comment r) = url)
   \<and> (\<forall>c. fst (get_comment_from_api L W (url_comment_id url) (url_game_slug url)) = Some c \<longrightarrow>
        comment r = c)
   \<and> (fst (get_comment_from_api L W (url_comment_id url) (url_game_slug url)) = None \<longrightarrow>
        (\<exists>soup. http_get_page W url = Inr soup
           \<and> extract_comment_info_fallback L soup (url_comment_id url) = Some (comment r)))"
    unfolding cid by (intro conjI)
qed

theorem C9_url_fields_witness:
  "\<exists>r. fst (scrape_game_page example_lib
            (page_world (leaf []) (Inr (PDict [(py ''user_reviews'',
               PDict [(py ''text'', PStr (py ''Great game''))])])))
            (py ''https://wtg.com.ua/game/doom/comment/ab-1'')) = Inr (Some r)
      \<and> original_url r = py ''https://wtg.com.ua/game/doom/comment/ab-1''
      \<and> comment_id (comment r) = py ''ab-1''
      \<and> (\<exists>pre. py ''https://wtg.com.ua/game/doom/comment/ab-1''
                  = pre @ py ''/comment/'' @ comment_id (comment r))"
proof -
  let ?W = "page_world (leaf []) (Inr (PDict [(py ''user_reviews'',
               PDict [(py ''text'', PStr (py ''Great game''))])]))"
  let ?url = "py ''https://wtg.com.ua/game/doom/comment/ab-1''"
  let ?r = "\<lparr>game = \<lparr>title = py ''Doom'', score = py ''N/A'', image_url = []\<rparr>,
            comment = \<lparr>author = PDict [], date = py ''Unknown Date'', text' = py ''Great game'',
                       comment_id = py ''ab-1''\<rparr>,
            original_url = ?url\<rparr>"
  have p: "http_get_page ?W ?url = Inr (leaf [])" by (simp add: page_world_def)
  have ev: "fst (scrape_game_page example_lib ?W ?url) = Inr (Some ?r)"
    by (simp add: scrape_game_page_def scrape_body_def Let_def p ev_game1 ev_cid ev_slug ev_api1)
  have m: "\<exists>u v. ?url = u @ py ''/comment/'' @ v"
  proof -
    have "?url = py ''https://wtg.com.ua/game/doom'' @ py ''/comment/'' @ py ''ab-1''"
      by (simp add: py_def)
    then show ?thesis by blast
  qed
  from C9_url_fields [of example_lib ?W ?url ?r] ev m
  have f: "original_url ?r = ?url" "comment_id (comment ?r) = url_comment_id ?url"
    "\<exists>pre. ?url = pre @ py ''/comment/'' @ comment_id (comment ?r)"
    by blast+
  from f(2) have "comment_id (comment ?r) = py ''ab-1''" by (simp only: ev_cid)
  with ev f(1,3) show ?thesis by blast
qed

text \<open>
  The claim as stated fails on a URL without the marker: a record is returned, by the HTML
  fallback, whose \<open>comment_id\<close> is the whole URL, and no segment follows \<open>/comment/\<close>.
\<close>

theorem C9_comment_id_without_marker_counterexample:
  "fst (scrape_game_page example_lib (page_world (leaf []) (Inl RequestException))
          (py ''https://example.com/''))
     = Inr (Some \<lparr>game = \<lparr>title = py ''Https://Example.Com/'', score = py ''N/A'', image_url = []\<rparr>,
                  comment = \<lparr>author = PStr (py ''Unknown User''), date = py ''Unknown Date'',
                             text' = py ''Comment content not available'',
                             comment_id = py ''https://example.com/''\<rparr>,
                  original_url = py ''https://example.com/''\<rparr>)
   \<and> \<not> py_in (py ''/comment/'') (py ''https://example.com/'')"
proof -
  let ?W = "page_world (leaf []) (Inl RequestException)"
  have p: "http_get_page ?W (py ''https://example.com/'') = Inr (leaf [])"
    by (simp add: page_world_def)
  have a: "get_comment_from_api example_lib ?W c g = (None, [GetApi c g])" for c g
    by (simp add: get_comment_from_api_def page_world_def)
  have n: "\<not> py_in (py ''/comment/'') (py ''https://example.com/'')"
    by (simp add: py_in_def py_def)
  show ?thesis
    using n by (simp add: scrape_game_page_def scrape_body_def Let_def p ev_game0 ev_cid0 ev_slug0 a
        ev_fallback0)
qed

section \<open>Score and fallback comment text\<close>

lemma re_digit_ascii: "c < 128 \<Longrightarrow> re_digit c \<longleftrightarrow> 48 \<le> c \<and> c \<le> 57"
  by (auto simp: re_digit_def nd_block_starts_def)

lemma re_search_digits_Some:
  "re_search_digits t = Some m \<longleftrightarrow>
     (\<exists>pre post. t = pre @ m @ post \<and> (\<forall>c\<in>set pre. \<not> re_digit c) \<and> m \<noteq> []
        \<and> (\<forall>c\<in>set m. re_digit c) \<and> (post = [] \<or> \<not> re_digit (hd post)))"
proof
  assume a: "re_search_digits t = Some m"
  let ?r = "dropWhile (\<lambda>c. \<not> re_digit c) t"
  from a have r: "?r \<noteq> []" and m: "m = takeWhile re_digit ?r"
    by (auto simp: re_search_digits_def Let_def split: if_splits)
  have 1: "t = takeWhile (\<lambda>c. \<not> re_digit c) t @ m @ dropWhile re_digit ?r"
    unfolding m by simp
  have 2: "\<forall>c\<in>set (takeWhile (\<lambda>c. \<not> re_digit c) t). \<not> re_digit c"
    by (auto dest: set_takeWhileD)
  from r have "re_digit (hd ?r)" using hd_dropWhile [of "\<lambda>c. \<not> re_digit c" t] by simp
  with r have 3: "m \<noteq> []" unfolding m by (cases ?r) auto
  have 4: "\<forall>c\<in>set m. re_digit c" unfolding m by (auto dest: set_takeWhileD)
  have 5: "dropWhile re_digit ?r = [] \<or> \<not> re_digit (hd (dropWhile re_digit ?r))"
    by (metis hd_dropWhile)
  from 1 2 3 4 5 show "\<exists>pre post. t = pre @ m @ post \<and> (\<forall>c\<in>set pre. \<not> re_digit c) \<and> m \<noteq> []
        \<and> (\<forall>c\<in>set m. re_digit c) \<and> (post = [] \<or> \<not> re_digit (hd post))"
    by blast
next
  assume "\<exists>pre post. t = pre @ m @ post \<and> (\<forall>c\<in>set pre. \<not> re_digit c) \<and> m \<noteq> []
        \<and> (\<forall>c\<in>set m. re_digit c) \<and> (post = [] \<or> \<not> re_digit (hd post))"
  then obtain pre post where t: "t = pre @ m @ post" and p: "\<forall>c\<in>set pre. \<not> re_digit c"
    and m: "m \<noteq> []" "\<forall>c\<in>set m. re_digit c" and q: "post = [] \<or> \<not> re_digit (hd post)"
    by blast
  from m obtain d ds where mm: "m = d # ds" "re_digit d" by (cases m) auto
  have "dropWhile (\<lambda>c. \<not> re_digit c) t = m @ post"
    unfolding t using p mm by (simp add: dropWhile_append)
  moreover have "takeWhile re_digit (m @ post) = m"
  proof -
    have "takeWhile re_digit post = []" using q by (cases post) auto
    with m(2) show ?thesis by (simp add: takeWhile_append2)
  qed
  ultimately show "re_search_digits t = Some m"
    using m(1) by (simp add: re_search_digits_def Let_def)
qed

lemma re_search_digits_None: "re_search_digits t = None \<longleftrightarrow> (\<forall>c\<in>set t. \<not> re_digit c)"
  by (auto simp: re_search_digits_def Let_def dropWhile_eq_Nil_conv)

lemma score_loop_spec:
  "\<forall>s\<in>set sels. \<exists>r. sel s = Inr r \<Longrightarrow>
   score_loop sel sels =
     Inr (case List.map_filter
                 (\<lambda>s. case sel s of Inr (Some e) \<Rightarrow> re_search_digits (get_text e) | _ \<Rightarrow> None) sels of
            [] \<Rightarrow> py ''N/A'' | m # ms \<Rightarrow> m)"
proof (induction sels)
  case Nil
  then show ?case by (simp add: List.map_filter_simps)
next
  case (Cons s sels)
  then obtain r where r: "sel s = Inr r" by auto
  from Cons have ih: "score_loop sel sels =
     Inr (case List.map_filter
                 (\<lambda>s. case sel s of Inr (Some e) \<Rightarrow> re_search_digits (get_text e) | _ \<Rightarrow> None) sels of
            [] \<Rightarrow> py ''N/A'' | m # ms \<Rightarrow> m)" by simp
  show ?case
  proof (cases r)
    case None
    with r ih show ?thesis by (simp add: List.map_filter_simps)
  next
    case (Some e)
    with r ih show ?thesis
      by (cases "re_search_digits (get_text e)") (simp_all add: List.map_filter_simps)
  qed
qed

lemma score_loop_raises: "score_loop sel sels = Inl e \<Longrightarrow> \<exists>s\<in>set sels. sel s = Inl e"
  by (induction sels) (auto split: sum.splits option.splits)

lemma game_info_score: "extract_game_info L soup url = Some g \<Longrightarrow> extract_score soup = Inr (score g)"
  by (auto simp: extract_game_info_def split: sum.splits)

lemma ev_rating: "re_search_digits (py ''Rating: 87/100'') = Some (py ''87'')"
  by (simp add: re_search_digits_def py_def re_digit_ascii)

text \<open>
  C6, as amended: the score loop goes through the score selectors in order and stops at the
  first matched element whose text contains a digit; the score is the first run of decimal
  digits of that text (\<open>Rating: 87/100\<close> gives \<open>87\<close>). If no selector matches an element, or
  no matched element has a digit in its text, the score is \<open>N/A\<close>. The loop itself never fails:
  it returns no score only when a lookup of the document raises. The score of the game
  information is the one of this loop.
\<close>

theorem C6_score_extraction:
  "((\<forall>s\<in>set score_selectors. \<exists>r. select_one soup s = Inr r) \<longrightarrow>
      extract_score soup =
        Inr (case List.map_filter
                    (\<lambda>s. case select_one soup s of
                            Inr (Some e) \<Rightarrow> re_search_digits (get_text e) | _ \<Rightarrow> None)
                    score_selectors of
               [] \<Rightarrow> py ''N/A'' | m # ms \<Rightarrow> m))
   \<and> (re_search_digits t = Some m \<longleftrightarrow>
        (\<exists>pre post. t = pre @ m @ post \<and> (\<forall>c\<in>set pre. \<not> re_digit c) \<and> m \<noteq> []
           \<and> (\<forall>c\<in>set m. re_digit c) \<and> (post = [] \<or> \<not> re_digit (hd post))))
   \<and> (re_search_digits t = None \<longleftrightarrow> (\<forall>c\<in>set t. \<not> re_digit c))
   \<and> re_search_digits (py ''Rating: 87/100'') = Some (py ''87'')
   \<and> (select_one soup (py ''.score'') = Inr (Some e) \<and> get_text e = py ''Rating: 87/100'' \<longrightarrow>
        extract_score soup = Inr (py ''87''))
   \<and> ((\<forall>s\<in>set score_selectors. select_one soup s = Inr None) \<longrightarrow>
        extract_score soup = Inr (py ''N/A''))
   \<and> (extract_game_info L soup url = Some g \<longrightarrow> extract_score soup = Inr (score g))
   \<and> (extract_score soup = Inl x \<longrightarrow> (\<exists>s\<in>set score_selectors. select_one soup s = Inl x))"
proof (intro conjI impI)
  assume "\<forall>s\<in>set score_selectors. \<exists>r. select_one soup s = Inr r"
  then show "extract_score soup =
        Inr (case List.map_filter
                    (\<lambda>s. case select_one soup s of
                            Inr (Some e) \<Rightarrow> re_search_digits (get_text e) | _ \<Rightarrow> None)
                    score_selectors of
               [] \<Rightarrow> py ''N/A'' | m # ms \<Rightarrow> m)"
    unfolding extract_score_def by (rule score_loop_spec)
next
  show "re_search_digits t = Some m \<longleftrightarrow>
        (\<exists>pre post. t = pre @ m @ post \<and> (\<forall>c\<in>set pre. \<not> re_digit c) \<and> m \<noteq> []
           \<and> (\<forall>c\<in>set m. re_digit c) \<and> (post = [] \<or> \<not> re_digit (hd post)))"
    by (rule re_search_digits_Some)
next
  show "re_search_digits t = None \<longleftrightarrow> (\<forall>c\<in>set t. \<not> re_digit c)"
    by (rule re_search_digits_None)
next
  show "re_search_digits (py ''Rating: 87/100'') = Some (py ''87'')" by (rule ev_rating)
next
  assume "select_one soup (py ''.score'') = Inr (Some e) \<and> get_text e = py ''Rating: 87/100''"
  then show "extract_score soup = Inr (py ''87'')"
    by (simp add: extract_score_def score_selectors_def ev_rating)
next
  assume "\<forall>s\<in>set score_selectors. select_one soup s = Inr None"
  then show "extract_score soup = Inr (py ''N/A'')"
    by (simp add: extract_score_def score_selectors_def)
next
  assume "extract_game_info L soup url = Some g"
  then show "extract_score soup = Inr (score g)" by (rule game_info_score)
next
  assume "extract_score soup = Inl x"
  then show "\<exists>s\<in>set score_selectors. select_one soup s = Inl x"
    unfolding extract_score_def by (rule score_loop_raises)
qed

lemma doc_with_select [simp]:
  "select_one (doc_with t matches) s = Inr (map_option leaf (map_of matches s))"
  by (simp add: doc_with_def)

lemma leaf_text [simp]: "get_text (leaf t) = t"
  by (simp add: leaf_def)

theorem C6_score_extraction_witness:
  "extract_score (doc_with [] [(py ''.rating'', py ''Rating: 87/100'')]) = Inr (py ''87'')
   \<and> extract_score (doc_with [] [(py ''.score'', py ''Rating: 87/100'')]) = Inr (py ''87'')
   \<and> extract_score (doc_with [] []) = Inr (py ''N/A'')"
proof -
  have k: "py ''.score'' \<noteq> py ''.rating''" by (simp add: py_eq_iff)
  let ?g = "\<lparr>title = [], score = [], image_url = []\<rparr>"
  note T = C6_score_extraction [where t = "[]" and m = "[]" and L = example_lib and url = "[]"
      and g = ?g and x = ValueError]
  have 1: "extract_score (doc_with [] [(py ''.rating'', py ''Rating: 87/100'')]) = Inr (py ''87'')"
  proof -
    let ?d = "doc_with [] [(py ''.rating'', py ''Rating: 87/100'')]"
    have a: "\<forall>s\<in>set score_selectors. \<exists>r. select_one ?d s = Inr r" by simp
    from T [of ?d "leaf []"] a
    have "extract_score ?d =
        Inr (case List.map_filter
                    (\<lambda>s. case select_one ?d s of
                            Inr (Some e) \<Rightarrow> re_search_digits (get_text e) | _ \<Rightarrow> None)
                    score_selectors of
               [] \<Rightarrow> py ''N/A'' | m # ms \<Rightarrow> m)"
      by blast
    then show ?thesis
      using k by (simp add: score_selectors_def List.map_filter_simps ev_rating)
  qed
  have 2: "extract_score (doc_with [] [(py ''.score'', py ''Rating: 87/100'')]) = Inr (py ''87'')"
  proof -
    let ?d = "doc_with [] [(py ''.score'', py ''Rating: 87/100'')]"
    have a: "select_one ?d (py ''.score'') = Inr (Some (leaf (py ''Rating: 87/100'')))
        \<and> get_text (leaf (py ''Rating: 87/100'')) = py ''Rating: 87/100''"
      by simp
    from T [of ?d "leaf (py ''Rating: 87/100'')"] a show ?thesis by blast
  qed
  have 3: "extract_score (doc_with [] []) = Inr (py ''N/A'')"
  proof -
    have a: "\<forall>s\<in>set score_selectors. select_one (doc_with [] []) s = Inr None" by simp
    from T [of "doc_with [] []" "leaf []"] a show ?thesis by blast
  qed
  from 1 2 3 show ?thesis by simp
qed

text \<open>
  The claim as stated (the first matching element decides, \<open>N/A\<close> when its text has no digit)
  fails when a later selector matches an element with a digit: \<open>.score\<close> matches \<open>Great\<close>,
  \<open>.rating\<close> matches \<open>87/100\<close>, and the score is \<open>87\<close>.
\<close>

theorem C6_first_match_without_digits_counterexample:
  "map_sum id (map_option get_text)
     (first_match (select_one (doc_with [] [(py ''.score'', py ''Great''), (py ''.rating'', py ''87/100'')]))
        score_selectors) = Inr (Some (py ''Great''))
   \<and> re_search_digits (py ''Great'') = None
   \<and> extract_score (doc_with [] [(py ''.score'', py ''Great''), (py ''.rating'', py ''87/100'')])
       = Inr (py ''87'')"
proof -
  have k: "py ''.score'' \<noteq> py ''.rating''" by (simp add: py_eq_iff)
  have g: "re_search_digits (py ''Great'') = None"
    by (simp add: re_search_digits_def py_def re_digit_ascii)
  have r: "re_search_digits (py ''87/100'') = Some (py ''87'')"
    by (simp add: re_search_digits_def py_def re_digit_ascii)
  show ?thesis
    using k by (simp add: extract_score_def score_selectors_def g r)
qed


lemma text_loop_spec:
  "\<forall>s\<in>set sels. \<exists>r. sel s = Inr r \<Longrightarrow>
   text_loop sel cur sels =
     Inr (let cands = List.map_filter
                 (\<lambda>s. case sel s of Inr (Some e) \<Rightarrow> Some (get_text e) | _ \<Rightarrow> None) sels
          in case List.find (\<lambda>t. 10 < length t) cands of
               Some t \<Rightarrow> t | None \<Rightarrow> last (cur # cands))"
proof (induction sels arbitrary: cur)
  case Nil
  then show ?case by (simp add: List.map_filter_simps)
next
  case (Cons s sels)
  then obtain r where r: "sel s = Inr r" by auto
  from Cons.prems have rest: "\<forall>s\<in>set sels. \<exists>r. sel s = Inr r" by simp
  note ih = Cons.IH [OF rest]
  show ?case
  proof (cases r)
    case None
    with r ih [of cur] show ?thesis by (simp add: List.map_filter_simps)
  next
    case (Some e)
    show ?thesis
    proof (cases "10 < length (get_text e)")
      case True
      with r Some show ?thesis by (simp add: List.map_filter_simps Let_def)
    next
      case False
      with r Some ih [of "get_text e"] show ?thesis
        by (simp add: List.map_filter_simps Let_def split: option.splits)
    qed
  qed
qed

lemma text_loop_raises: "text_loop sel cur sels = Inl e \<Longrightarrow> \<exists>s\<in>set sels. sel s = Inl e"
  by (induction sels arbitrary: cur) (auto simp: Let_def split: sum.splits option.splits if_splits)

lemma sentinel_long: "10 < length (py ''Comment text not available'')"
  by (simp add: py_def)

lemma map_filter_Nil:
  "\<forall>s\<in>set sels. f s = None \<Longrightarrow> List.map_filter f sels = []"
  by (induction sels) (simp_all add: List.map_filter_simps)

lemma fallback_text:
  "extract_comment_info_fallback L soup cid = Some c \<Longrightarrow>
   find_comment_elem L soup cid = Inr (Some elem) \<Longrightarrow> extract_comment_text elem = Inr (text' c)"
  by (auto simp: extract_comment_info_fallback_def split: sum.splits option.splits)

text \<open>
  C7, as amended: the candidates are the texts of the elements matched by the text selectors,
  in order. The first candidate of more than 10 characters, unless it is literally
  \<open>Comment text not available\<close>, is the comment text. If no text selector matches any element,
  the comment text is the container's full text cut to 500 characters when that text has more
  than 10 characters, and \<open>Comment text not available\<close> otherwise. The text of the comment
  returned by the fallback extractor is this text.
\<close>

theorem C7_fallback_comment_text:
  "((\<forall>s\<in>set text_selectors. \<exists>r. select_one elem s = Inr r)
      \<and> List.find (\<lambda>t. 10 < length t)
           (List.map_filter
              (\<lambda>s. case select_one elem s of Inr (Some e) \<Rightarrow> Some (get_text e) | _ \<Rightarrow> None)
              text_selectors) = Some t
      \<and> t \<noteq> py ''Comment text not available'' \<longrightarrow>
      extract_comment_text elem = Inr t)
   \<and> ((\<forall>s\<in>set text_selectors. select_one elem s = Inr None) \<longrightarrow>
      extract_comment_text elem =
        Inr (if 10 < length (get_text elem) then take 500 (get_text elem)
             else py ''Comment text not available''))
   \<and> (extract_comment_info_fallback L soup cid = Some c
        \<and> find_comment_elem L soup cid = Inr (Some elem) \<longrightarrow>
      extract_comment_text elem = Inr (text' c))"
proof (intro conjI impI)
  assume a: "(\<forall>s\<in>set text_selectors. \<exists>r. select_one elem s = Inr r)
      \<and> List.find (\<lambda>t. 10 < length t)
           (List.map_filter
              (\<lambda>s. case select_one elem s of Inr (Some e) \<Rightarrow> Some (get_text e) | _ \<Rightarrow> None)
              text_selectors) = Some t
      \<and> t \<noteq> py ''Comment text not available''"
  then have "text_loop (select_one elem) (py ''Comment text not available'') text_selectors = Inr t"
    by (simp add: text_loop_spec Let_def)
  with a show "extract_comment_text elem = Inr t"
    by (simp add: extract_comment_text_def)
next
  assume a: "\<forall>s\<in>set text_selectors. select_one elem s = Inr None"
  then have "List.map_filter
              (\<lambda>s. case select_one elem s of Inr (Some e) \<Rightarrow> Some (get_text e) | _ \<Rightarrow> None)
              text_selectors = []"
    by (intro map_filter_Nil) simp
  moreover from a have "\<forall>s\<in>set text_selectors. \<exists>r. select_one elem s = Inr r" by simp
  ultimately have "text_loop (select_one elem) (py ''Comment text not available'') text_selectors
      = Inr (py ''Comment text not available'')"
    by (simp add: text_loop_spec Let_def)
  then show "extract_comment_text elem =
        Inr (if 10 < length (get_text elem) then take 500 (get_text elem)
             else py ''Comment text not available'')"
    by (simp add: extract_comment_text_def Let_def)
next
  assume "extract_comment_info_fallback L soup cid = Some c
        \<and> find_comment_elem L soup cid = Inr (Some elem)"
  then show "extract_comment_text elem = Inr (text' c)"
    using fallback_text by blast
qed


lemma doc_with_text [simp]: "get_text (doc_with t matches) = t"
  by (simp add: doc_with_def)

theorem C7_fallback_comment_text_witness:
  "extract_comment_text
     (doc_with (py ''bob: Nice - A long comment text'')
        [(py ''.comment-text'', py ''Nice''), (py ''p'', py ''A long comment text'')])
     = Inr (py ''A long comment text'')
   \<and> extract_comment_text (doc_with (py ''bob: A long comment text'') [])
     = Inr (py ''bob: A long comment text'')"
proof -
  let ?d = "doc_with (py ''bob: Nice - A long comment text'')
        [(py ''.comment-text'', py ''Nice''), (py ''p'', py ''A long comment text'')]"
  let ?e = "doc_with (py ''bob: A long comment text'') []"
  let ?c = "\<lparr>author = PNone, date = [], text' = [], comment_id = []\<rparr>"
  note T = C7_fallback_comment_text [where L = example_lib and soup = "leaf []" and cid = "[]"
      and c = ?c]
  have k: "py ''.comment-text'' \<noteq> py ''p''" "py ''.comment-body'' \<noteq> py ''p''"
    "py ''.text'' \<noteq> py ''p''" "py ''.content'' \<noteq> py ''p''"
    "py ''.comment-body'' \<noteq> py ''.comment-text''" "py ''.text'' \<noteq> py ''.comment-text''"
    "py ''.content'' \<noteq> py ''.comment-text''"
    by (simp_all add: py_eq_iff)
  have a: "\<forall>s\<in>set text_selectors. \<exists>r. select_one ?d s = Inr r" by simp
  have b: "List.find (\<lambda>t. 10 < length t)
           (List.map_filter
              (\<lambda>s. case select_one ?d s of Inr (Some e) \<Rightarrow> Some (get_text e) | _ \<Rightarrow> None)
              text_selectors) = Some (py ''A long comment text'')"
    using k by (simp add: text_selectors_def List.map_filter_simps) (simp add: py_def)
  have c: "py ''A long comment text'' \<noteq> py ''Comment text not available''"
    by (simp add: py_eq_iff)
  from T [of ?d "py ''A long comment text''"] a b c
  have 1: "extract_comment_text ?d = Inr (py ''A long comment text'')" by blast
  have d: "\<forall>s\<in>set text_selectors. select_one ?e s = Inr None" by simp
  from T [of ?e "[]"] d
  have "extract_comment_text ?e =
        Inr (if 10 < length (get_text ?e) then take 500 (get_text ?e)
             else py ''Comment text not available'')"
    by blast
  then have 2: "extract_comment_text ?e = Inr (py ''bob: A long comment text'')"
    by (simp add: py_def)
  from 1 2 show ?thesis by simp
qed

text \<open>
  The claim as stated fails on a container of at most 10 characters in which no text selector
  matches: the guard \<open>len(all_text) > 10\<close> keeps \<open>Comment text not available\<close> where the claim
  has the container's text.
\<close>

theorem C7_short_container_counterexample:
  "List.map_filter
     (\<lambda>s. case select_one (doc_with (py ''Nice!'') []) s of
             Inr (Some e) \<Rightarrow> Some (get_text e) | _ \<Rightarrow> None) text_selectors = []
   \<and> take 500 (get_text (doc_with (py ''Nice!'') [])) = py ''Nice!''
   \<and> extract_comment_text (doc_with (py ''Nice!'') []) = Inr (py ''Comment text not available'')"
  by (simp add: extract_comment_text_def text_selectors_def List.map_filter_simps)
    (simp add: py_def)


end
